theory Spec2Isabelle
  imports Complex_Main "HOL-Library.Word" "HOL-Library.Char_ord" "HOL-Library.List_Lexorder"
begin

section \<open>The lenient decoder of pkg/transform (unmarshal.go)\<close>

text \<open>
  The Go package converts loosely typed input (\<open>interface{}\<close> values: maps, JSON text or
  bytes, lists) into a caller's struct or slice of structs through reflection.  The model
  below follows unmarshal.go function by function.  A pointer destination is modelled by
  state passing: every function takes the pointee and returns the error together with
  the pointee as the call leaves it.  A run-time panic is the error value \<open>Panic\<close>: the
  package never recovers, so a panic leaves every enclosing call at once, exactly as the
  model's early returns do, and the pointee is as the panicking statement found it.
\<close>

subsection \<open>Input values\<close>

text \<open>Go's \<open>int\<close> on a 64-bit platform, and a \<open>float64\<close> as its IEEE-754 bit pattern.\<close>

type_synonym go_int = "64 word"
type_synonym float64 = "64 word"

text \<open>
  A value of type \<open>interface{}\<close>, by dynamic type: \<open>nil\<close>, \<open>bool\<close>, \<open>int\<close>,
  \<open>float64\<close>, \<open>string\<close>, \<open>[]byte\<close>, \<open>map[string]interface{}\<close>, \<open>[]interface{}\<close>,
  \<open>[]map[string]interface{}\<close>, and any other Go value (kept as its type name and its
  \<open>%v\<close> rendering).  A map is the list of its entries in the order in which a
  \<open>range\<close> loop visits them; Go leaves that order unspecified, so nothing below fixes it.
\<close>

datatype iface =
    VNil
  | VBool bool
  | VInt go_int
  | VFloat64 float64
  | VString string
  | VBytes string
  | VMap "(string \<times> iface) list"
  | VSlice "iface list"
  | VSliceOfMaps "(string \<times> iface) list list"
  | VOther string string

subsection \<open>Errors\<close>

datatype numerr = ErrSyntax | ErrRange

text \<open>
  The error values of the package and of the libraries it calls.  \<open>FieldError\<close> is the
  struct of unmarshal.go with its three fields; \<open>MultiError\<close> is the aggregate that
  \<open>multierr.Append\<close> builds; \<open>Panic\<close> is the panic of \<open>reflect.Value.Set\<close> on a field
  of the named type.  A Go \<open>error\<close> that may be \<open>nil\<close> is an \<open>error option\<close>.
\<close>

datatype error =
    UnsupportedDataType iface
  | NotPtrToSlice
  | NotPtrToStruct
  | UnsupportedFieldType string
  | NumError string string numerr
  | CannotConvertBool iface
  | CannotConvertSlice iface
  | JSONError string
  | FieldError (field: string) (err: error) (fieldAffected: bool)
  | MultiError "error list"
  | Panic string

fun is_FieldError :: "error \<Rightarrow> bool" where
  "is_FieldError (FieldError k e a) = True"
| "is_FieldError _ = False"

definition Field :: "error \<Rightarrow> string" where
  "Field e = field e"

definition IsFieldAffected :: "error \<Rightarrow> bool" where
  "IsFieldAffected e = fieldAffected e"

text \<open>\<open>multierr.Append(left, right)\<close> for a non-nil \<open>right\<close> that is not itself an aggregate,
  and \<open>multierr.Errors\<close>, which decomposes an error into its constituents.\<close>

fun Append :: "error option \<Rightarrow> error \<Rightarrow> error option" where
  "Append None e = Some e"
| "Append (Some (MultiError es)) e = Some (MultiError (es @ [e]))"
| "Append (Some l) e = Some (MultiError [l, e])"

fun Errors :: "error option \<Rightarrow> error list" where
  "Errors None = []"
| "Errors (Some (MultiError es)) = es"
| "Errors (Some e) = [e]"

subsection \<open>The library functions the converters call\<close>

text \<open>
  What the package takes from \<open>encoding/json\<close>, and the float operations no property below
  depends on, are parameters of the model: the two JSON decodings used by
  \<open>UnmarshalBytes\<close> and \<open>UnmarshalString\<close> (into a \<open>map[string]interface{}\<close> and into a
  \<open>[]map[string]interface{}\<close>), \<open>strconv.ParseFloat(s, 64)\<close>, the conversion \<open>float64(v)\<close>
  of an \<open>int\<close>, the \<open>%v\<close> rendering of a \<open>float64\<close>, and the result of \<open>int(v)\<close> for a
  \<open>float64\<close> whose value no \<open>int\<close> represents (which Go leaves to the implementation).
\<close>

record runtime =
  json_map :: "string \<Rightarrow> error + (string \<times> iface) list"
  json_maps :: "string \<Rightarrow> error + (string \<times> iface) list list"
  ParseFloat :: "string \<Rightarrow> error + float64"
  float64_of_int :: "go_int \<Rightarrow> float64"
  Sprint_float64 :: "float64 \<Rightarrow> string"
  int_unrepresentable :: "float64 \<Rightarrow> go_int"

text \<open>\<open>strconv.Itoa\<close>: the decimal digits of an \<open>int\<close>, with a minus sign when negative.\<close>

fun utoa :: "nat \<Rightarrow> string" where
  "utoa n = (if n < 10 then [''0123456789'' ! n]
             else utoa (n div 10) @ [''0123456789'' ! (n mod 10)])"

declare utoa.simps [simp del]

definition Itoa :: "go_int \<Rightarrow> string" where
  "Itoa i = (if sint i < 0 then CHR ''-'' # utoa (nat (- sint i)) else utoa (nat (sint i)))"

text \<open>
  \<open>strconv.Atoi\<close>, that is \<open>ParseInt(s, 10, 0)\<close> with the error's function name replaced:
  an optional sign, then \<open>ParseUint\<close> over the digits (a syntax error at the first byte
  that is no digit, a range error as soon as the value leaves 64 bits), then the check
  against the range of \<open>int64\<close>.
\<close>

definition isDigit :: "char \<Rightarrow> bool" where
  "isDigit c = (48 \<le> (of_char c :: nat) \<and> (of_char c :: nat) \<le> 57)"

fun ParseUint :: "string \<Rightarrow> nat \<Rightarrow> numerr + nat" where
  "ParseUint [] n = Inr n"
| "ParseUint (c # cs) n =
     (if \<not> isDigit c then Inl ErrSyntax
      else if n \<ge> 2 ^ 64 div 10 + 1 then Inl ErrRange
      else if n * 10 + (of_char c - 48) \<ge> 2 ^ 64 then Inl ErrRange
      else ParseUint cs (n * 10 + (of_char c - 48)))"

definition Atoi :: "string \<Rightarrow> error + go_int" where
  "Atoi s =
     (let neg = (s \<noteq> [] \<and> hd s = CHR ''-'');
          ds = (if s \<noteq> [] \<and> (hd s = CHR ''+'' \<or> hd s = CHR ''-'') then tl s else s)
      in if ds = [] then Inl (NumError ''Atoi'' s ErrSyntax)
         else (case ParseUint ds 0 of
                 Inl e \<Rightarrow> Inl (NumError ''Atoi'' s e)
               | Inr un \<Rightarrow>
                   if \<not> neg \<and> un \<ge> 2 ^ 63 then Inl (NumError ''Atoi'' s ErrRange)
                   else if neg \<and> un > 2 ^ 63 then Inl (NumError ''Atoi'' s ErrRange)
                   else Inr (if neg then - of_nat un else of_nat un)))"

text \<open>
  \<open>fmt.Sprintf("%v", value)\<close>: \<open><nil>\<close>, \<open>true\<close>/\<open>false\<close>, decimal integers, strings as
  they are, a slice as its elements between brackets, a map as \<open>map[k:v ...]\<close> with the
  keys sorted.
\<close>

fun join :: "string list \<Rightarrow> string" where
  "join [] = []"
| "join [x] = x"
| "join (x # y # ys) = x @ '' '' @ join (y # ys)"

definition brackets :: "string list \<Rightarrow> string" where
  "brackets xs = ''['' @ join xs @ '']''"

definition mapfmt :: "(string \<times> string) list \<Rightarrow> string" where
  "mapfmt kvs = ''map['' @ join (map (\<lambda>(k, s). k @ '':'' @ s) (sort_key fst kvs)) @ '']''"

fun Sprint :: "runtime \<Rightarrow> iface \<Rightarrow> string" where
  "Sprint rt VNil = ''<nil>''"
| "Sprint rt (VBool b) = (if b then ''true'' else ''false'')"
| "Sprint rt (VInt i) = Itoa i"
| "Sprint rt (VFloat64 f) = Sprint_float64 rt f"
| "Sprint rt (VString s) = s"
| "Sprint rt (VBytes b) = brackets (map (\<lambda>c. utoa (of_char c)) b)"
| "Sprint rt (VMap m) = mapfmt (map (\<lambda>(k, v). (k, Sprint rt v)) m)"
| "Sprint rt (VSlice xs) = brackets (map (Sprint rt) xs)"
| "Sprint rt (VSliceOfMaps ms) =
     brackets (map (\<lambda>m. mapfmt (map (\<lambda>(k, v). (k, Sprint rt v)) m)) ms)"
| "Sprint rt (VOther ty s) = s"

subsection \<open>float64: the bits, \<open>int(v)\<close> and \<open>strconv.FormatFloat(v, 'f', -1, 64)\<close>\<close>

text \<open>
  The sign, the 11 exponent bits and the 52 mantissa bits of a \<open>float64\<close>, and, for a
  finite one, the mantissa \<open>mant\<close> and the binary exponent \<open>exp2\<close> with which strconv
  works: the magnitude is \<open>mant * 2 ^ exp2\<close>.
\<close>

definition signBit :: "float64 \<Rightarrow> bool" where
  "signBit f = (unat f div 2 ^ 63 \<noteq> 0)"

definition expBits :: "float64 \<Rightarrow> nat" where
  "expBits f = unat f div 2 ^ 52 mod 2 ^ 11"

definition mantBits :: "float64 \<Rightarrow> nat" where
  "mantBits f = unat f mod 2 ^ 52"

definition finite64 :: "float64 \<Rightarrow> bool" where
  "finite64 f = (expBits f \<noteq> 2047)"

definition mant :: "float64 \<Rightarrow> nat" where
  "mant f = (if expBits f = 0 then mantBits f else mantBits f + 2 ^ 52)"

definition exp2 :: "float64 \<Rightarrow> int" where
  "exp2 f = int (if expBits f = 0 then 1 else expBits f) - 1023 - 52"

text \<open>
  The conversion \<open>int(v)\<close>: the fraction is discarded.  When the float is not finite or
  the result does not fit 64 bits, Go leaves the result to the implementation.
\<close>

definition truncAbs :: "float64 \<Rightarrow> nat" where
  "truncAbs f = (if exp2 f \<ge> 0 then mant f * 2 ^ nat (exp2 f) else mant f div 2 ^ nat (- exp2 f))"

definition representable :: "float64 \<Rightarrow> bool" where
  "representable f =
     (finite64 f \<and> (if signBit f then truncAbs f \<le> 2 ^ 63 else truncAbs f < 2 ^ 63))"

definition int_of_float64 :: "runtime \<Rightarrow> float64 \<Rightarrow> go_int" where
  "int_of_float64 rt f =
     (if representable f
      then (if signBit f then - of_nat (truncAbs f) else of_nat (truncAbs f))
      else int_unrepresentable rt f)"

text \<open>
  \<open>strconv.FormatFloat(v, 'f', -1, 64)\<close>.  With precision -1 strconv produces the shortest
  decimal digits that identify the float: those of the decimal with the fewest digits
  between the midpoints to the two neighbouring floats (the midpoints included when the
  mantissa is even), the closest to the float among these.  The magnitude is the integer
  \<open>exact f\<close> in units of \<open>10 ^ decExp f\<close>, an ulp is \<open>ulpUnits f\<close> of these units, and
  \<open>lower4\<close> and \<open>upper4\<close> are the two midpoints in quarters of a unit (the lower one is
  nearer where the float is a power of two).  \<open>shortestFrom f j\<close> tries the multiples of
  \<open>10 ^ j\<close> next to the float, for decreasing \<open>j\<close>.
\<close>

definition ulpUnits :: "float64 \<Rightarrow> nat" where
  "ulpUnits f = (if exp2 f \<ge> 0 then 2 ^ nat (exp2 f) else 5 ^ nat (- exp2 f))"

definition decExp :: "float64 \<Rightarrow> int" where
  "decExp f = min (exp2 f) 0"

definition exact :: "float64 \<Rightarrow> nat" where
  "exact f = mant f * ulpUnits f"

definition upper4 :: "float64 \<Rightarrow> nat" where
  "upper4 f = 4 * exact f + 2 * ulpUnits f"

definition lower4 :: "float64 \<Rightarrow> nat" where
  "lower4 f =
     4 * exact f - (if mantBits f = 0 \<and> expBits f > 1 then ulpUnits f else 2 * ulpUnits f)"

definition inside :: "float64 \<Rightarrow> nat \<Rightarrow> bool" where
  "inside f c = (if even (mant f) then lower4 f \<le> 4 * c \<and> 4 * c \<le> upper4 f
                 else lower4 f < 4 * c \<and> 4 * c < upper4 f)"

fun shortestFrom :: "float64 \<Rightarrow> nat \<Rightarrow> nat" where
  "shortestFrom f 0 = exact f"
| "shortestFrom f (Suc j) =
     (let w = 10 ^ Suc j; down = exact f div w * w; up = down + w
      in if inside f down \<and> inside f up
         then (if 2 * (exact f - down) < w then down
               else if 2 * (exact f - down) > w then up
               else if even (down div w) then down else up)
         else if inside f down then down
         else if inside f up then up
         else shortestFrom f j)"

definition shortest :: "float64 \<Rightarrow> nat" where
  "shortest f = shortestFrom f (length (utoa (exact f)) - 1)"

text \<open>The digits without trailing zeros and the position of the decimal point
  (strconv's \<open>decimalSlice\<close>), and the layout \<open>%f\<close> of strconv's \<open>fmtF\<close>.\<close>

definition stripZeros :: "string \<Rightarrow> string" where
  "stripZeros s = rev (dropWhile (\<lambda>c. c = CHR ''0'') (rev s))"

definition shortestDigits :: "float64 \<Rightarrow> string \<times> int" where
  "shortestDigits f =
     (if mant f = 0 then ([], 0)
      else (stripZeros (utoa (shortest f)), int (length (utoa (shortest f))) + decExp f))"

definition fmtF :: "bool \<Rightarrow> string \<Rightarrow> int \<Rightarrow> string" where
  "fmtF neg d dp =
     (if neg then ''-'' else []) @
     (if dp > 0 then take (nat dp) d @ replicate (nat dp - length d) (CHR ''0'') else ''0'') @
     (let prec = nat (int (length d) - dp)
      in if prec > 0
         then CHR ''.'' # map (\<lambda>i. let j = dp + int i
                                  in if 0 \<le> j \<and> j < int (length d) then d ! nat j else CHR ''0'')
                             [0..<prec]
         else [])"

definition FormatFloat :: "float64 \<Rightarrow> string" where
  "FormatFloat f =
     (if expBits f = 2047
      then (if mantBits f \<noteq> 0 then ''NaN'' else if signBit f then ''-Inf'' else ''+Inf'')
      else case shortestDigits f of (d, dp) \<Rightarrow> fmtF (signBit f) d dp)"

subsection \<open>The converters\<close>

definition ConvertString :: "runtime \<Rightarrow> iface \<Rightarrow> error + string" where
  "ConvertString rt v =
     (case v of
        VString s \<Rightarrow> Inr s
      | VFloat64 f \<Rightarrow> Inr (FormatFloat f)
      | VInt i \<Rightarrow> Inr (Itoa i)
      | _ \<Rightarrow> Inr (Sprint rt v))"

definition ConvertInt :: "runtime \<Rightarrow> iface \<Rightarrow> error + go_int" where
  "ConvertInt rt v =
     (case v of
        VString s \<Rightarrow> Atoi s
      | VFloat64 f \<Rightarrow> Inr (int_of_float64 rt f)
      | _ \<Rightarrow> Atoi (Sprint rt v))"

definition ConvertFloat64 :: "runtime \<Rightarrow> iface \<Rightarrow> error + float64" where
  "ConvertFloat64 rt v =
     (case v of
        VString s \<Rightarrow> ParseFloat rt s
      | VInt i \<Rightarrow> Inr (float64_of_int rt i)
      | _ \<Rightarrow> ParseFloat rt (Sprint rt v))"

definition ConvertBool :: "iface \<Rightarrow> error + bool" where
  "ConvertBool v = (case v of VBool b \<Rightarrow> Inr b | _ \<Rightarrow> Inl (CannotConvertBool v))"

definition ConvertSlice :: "iface \<Rightarrow> error + iface list" where
  "ConvertSlice v = (case v of VSlice xs \<Rightarrow> Inr xs | _ \<Rightarrow> Inl (CannotConvertSlice v))"

subsection \<open>Destinations\<close>

text \<open>
  The kinds the switch of \<open>MapToStruct\<close> tells apart, and the type of a struct field: the
  type the converter of its kind returns (\<open>string\<close>, \<open>int\<close>, \<open>float64\<close>, \<open>bool\<close>,
  \<open>[]interface{}\<close>; for any other kind, the type of that name), or a type of that kind to
  which a value of the converter's type is not assignable (a defined type such as
  \<open>type Year int\<close>, a slice type such as \<open>[]string\<close>), with its name.  \<open>reflect.Kind\<close> is
  read off the type.  A field holds a value; only values of the five plain types are ever
  written by the package.
\<close>

datatype kind = KString | KInt | KFloat64 | KBool | KSlice | KOther string

datatype ftype = Plain kind | Unassignable kind string

fun Kind :: "ftype \<Rightarrow> kind" where
  "Kind (Plain k) = k"
| "Kind (Unassignable k ty) = k"

datatype fvalue =
    FString string
  | FInt go_int
  | FFloat64 float64
  | FBool bool
  | FSlice "iface list"
  | FOther string

record field =
  name :: string
  exported :: bool
  ftyp :: ftype
  val :: fvalue

text \<open>
  Types of destinations, with their zero values (\<open>reflect.New\<close>), and the values: a struct
  is the list of its fields, a slice carries its element type.
\<close>

datatype dtype =
    TStruct "(string \<times> bool \<times> ftype) list"
  | TSlice dtype
  | TOther string

datatype dvalue =
    DStruct "field list"
  | DSlice dtype "dvalue list"
  | DOther string

fun zeroField :: "kind \<Rightarrow> fvalue" where
  "zeroField KString = FString []"
| "zeroField KInt = FInt 0"
| "zeroField KFloat64 = FFloat64 0"
| "zeroField KBool = FBool False"
| "zeroField KSlice = FSlice []"
| "zeroField (KOther ty) = FOther ty"

fun zero :: "dtype \<Rightarrow> dvalue" where
  "zero (TStruct fs) =
     DStruct (map (\<lambda>(n, e, t). \<lparr>name = n, exported = e, ftyp = t, val = zeroField (Kind t)\<rparr>) fs)"
| "zero (TSlice t) = DSlice t []"
| "zero (TOther ty) = DOther ty"

text \<open>
  The \<open>result\<close> argument: a non-nil pointer with its pointee, or anything else (a nil
  interface, a nil pointer, a value that is no pointer).  \<open>Elem\<close> is the pointee.
\<close>

datatype result = Pointer dvalue | NotPointer

fun Elem :: "result \<Rightarrow> dvalue" where
  "Elem (Pointer d) = d"
| "Elem NotPointer = DOther []"

subsection \<open>MapToStruct\<close>

text \<open>\<open>FieldByName\<close>, \<open>CanSet\<close> and \<open>Set\<close> of \<open>reflect\<close>, on the list of fields.  \<open>Set\<close> panics
  unless the value is assignable to the field's type; the value handed to it has the
  plain type of the field's kind.\<close>

fun FieldByName :: "field list \<Rightarrow> string \<Rightarrow> field option" where
  "FieldByName [] key = None"
| "FieldByName (f # fs) key = (if name f = key then Some f else FieldByName fs key)"

definition CanSet :: "field \<Rightarrow> bool" where
  "CanSet f = exported f"

fun assignable :: "ftype \<Rightarrow> bool" where
  "assignable (Plain k) = True"
| "assignable (Unassignable k ty) = False"

fun typeName :: "ftype \<Rightarrow> string" where
  "typeName (Plain KString) = ''string''"
| "typeName (Plain KInt) = ''int''"
| "typeName (Plain KFloat64) = ''float64''"
| "typeName (Plain KBool) = ''bool''"
| "typeName (Plain KSlice) = ''[]interface {}''"
| "typeName (Plain (KOther ty)) = ty"
| "typeName (Unassignable k ty) = ty"

fun SetField :: "field list \<Rightarrow> string \<Rightarrow> fvalue \<Rightarrow> field list" where
  "SetField [] key c = []"
| "SetField (f # fs) key c =
     (if name f = key then f\<lparr>val := c\<rparr> # fs else f # SetField fs key c)"

text \<open>The \<open>switch field.Kind()\<close> of \<open>MapToStruct\<close>, with what it leaves in \<open>err\<close> and
  \<open>convertedValue\<close>; \<open>Unsupported\<close> is the \<open>default\<close> branch.\<close>

datatype conversion = Unsupported string | Failed error | Converted fvalue

fun conv :: "('a \<Rightarrow> fvalue) \<Rightarrow> error + 'a \<Rightarrow> conversion" where
  "conv F (Inl e) = Failed e"
| "conv F (Inr x) = Converted (F x)"

fun convertByKind :: "runtime \<Rightarrow> kind \<Rightarrow> iface \<Rightarrow> conversion" where
  "convertByKind rt KString v = conv FString (ConvertString rt v)"
| "convertByKind rt KInt v = conv FInt (ConvertInt rt v)"
| "convertByKind rt KFloat64 v = conv FFloat64 (ConvertFloat64 rt v)"
| "convertByKind rt KBool v = conv FBool (ConvertBool v)"
| "convertByKind rt KSlice v = conv FSlice (ConvertSlice v)"
| "convertByKind rt (KOther ty) v = Unsupported ty"

text \<open>The \<open>for key, value := range data\<close> loop, on the struct's fields and \<open>multiErr\<close>.\<close>

fun assignFields ::
  "runtime \<Rightarrow> (string \<times> iface) list \<Rightarrow> field list \<Rightarrow> error option \<Rightarrow> error option \<times> field list"
where
  "assignFields rt [] fs multiErr = (multiErr, fs)"
| "assignFields rt ((key, v) # rest) fs multiErr =
     (case FieldByName fs key of
        None \<Rightarrow> assignFields rt rest fs multiErr
      | Some f \<Rightarrow>
          if \<not> CanSet f then assignFields rt rest fs multiErr
          else (case convertByKind rt (Kind (ftyp f)) v of
                  Unsupported ty \<Rightarrow> (Some (UnsupportedFieldType ty), fs)
                | Failed e \<Rightarrow>
                    assignFields rt rest fs (Append multiErr (FieldError key e True))
                | Converted convertedValue \<Rightarrow>
                    if \<not> assignable (ftyp f) then (Some (Panic (typeName (ftyp f))), fs)
                    else assignFields rt rest (SetField fs key convertedValue) multiErr))"

definition MapToStruct ::
  "runtime \<Rightarrow> (string \<times> iface) list \<Rightarrow> result \<Rightarrow> error option \<times> result" where
  "MapToStruct rt data result =
     (case result of
        Pointer (DStruct fs) \<Rightarrow>
          (case assignFields rt data fs None of
             (multiErr, fs') \<Rightarrow> (multiErr, Pointer (DStruct fs')))
      | _ \<Rightarrow> (Some NotPtrToStruct, result))"

subsection \<open>Unmarshal\<close>

definition UnmarshalString :: "runtime \<Rightarrow> string \<Rightarrow> result \<Rightarrow> error option \<times> result" where
  "UnmarshalString rt data result =
     (case json_map rt data of
        Inl e \<Rightarrow> (Some e, result)
      | Inr raw \<Rightarrow> MapToStruct rt raw result)"

definition UnmarshalMap ::
  "runtime \<Rightarrow> (string \<times> iface) list \<Rightarrow> result \<Rightarrow> error option \<times> result" where
  "UnmarshalMap rt data result = MapToStruct rt data result"

text \<open>Whether a \<open>[]byte\<close> occurs among the items of nested lists; used only to show
  that the recursion below ends.\<close>

fun hasBytes :: "iface \<Rightarrow> bool" where
  "hasBytes (VBytes b) = True"
| "hasBytes (VSlice xs) = (\<exists>x \<in> set xs. hasBytes x)"
| "hasBytes _ = False"

text \<open>
  \<open>Unmarshal\<close>, \<open>UnmarshalBytes\<close>, \<open>UnmarshalSlice\<close> and \<open>UnmarshalSliceOfMaps\<close> call each
  other.  \<open>appendItems\<close> and \<open>appendMaps\<close> are the two \<open>for _, item := range data\<close> loops
  on the local \<open>resultValue\<close>; they return the error of the item that failed, or the
  slice to store.
\<close>

function
  Unmarshal :: "runtime \<Rightarrow> iface \<Rightarrow> result \<Rightarrow> error option \<times> result" and
  UnmarshalBytes :: "runtime \<Rightarrow> string \<Rightarrow> result \<Rightarrow> error option \<times> result" and
  UnmarshalSlice :: "runtime \<Rightarrow> iface list \<Rightarrow> result \<Rightarrow> error option \<times> result" and
  appendItems :: "runtime \<Rightarrow> iface list \<Rightarrow> dtype \<Rightarrow> dvalue list \<Rightarrow> error + dvalue list" and
  UnmarshalSliceOfMaps ::
    "runtime \<Rightarrow> (string \<times> iface) list list \<Rightarrow> result \<Rightarrow> error option \<times> result" and
  appendMaps ::
    "runtime \<Rightarrow> (string \<times> iface) list list \<Rightarrow> dtype \<Rightarrow> dvalue list \<Rightarrow> error + dvalue list"
where
  "Unmarshal rt data result =
     (case data of
        VBytes v \<Rightarrow> UnmarshalBytes rt v result
      | VString v \<Rightarrow> UnmarshalString rt v result
      | VMap v \<Rightarrow> UnmarshalMap rt v result
      | VSlice v \<Rightarrow> UnmarshalSlice rt v result
      | VSliceOfMaps v \<Rightarrow> UnmarshalSliceOfMaps rt v result
      | _ \<Rightarrow> (Some (UnsupportedDataType data), result))"
| "UnmarshalBytes rt data result =
     (case json_map rt data of
        Inr raw \<Rightarrow> MapToStruct rt raw result
      | Inl _ \<Rightarrow>
          (case json_maps rt data of
             Inl e \<Rightarrow> (Some e, result)
           | Inr rawSlice \<Rightarrow> Unmarshal rt (VSlice (map VMap rawSlice)) result))"
| "UnmarshalSlice rt data result =
     (case result of
        Pointer (DSlice t elems) \<Rightarrow>
          (case appendItems rt data t elems of
             Inl e \<Rightarrow> (Some e, result)
           | Inr resultValue \<Rightarrow> (None, Pointer (DSlice t resultValue)))
      | _ \<Rightarrow> (Some NotPtrToSlice, result))"
| "appendItems rt [] t resultValue = Inr resultValue"
| "appendItems rt (item # rest) t resultValue =
     (case Unmarshal rt item (Pointer (zero t)) of
        (Some e, newItem) \<Rightarrow> Inl e
      | (None, newItem) \<Rightarrow> appendItems rt rest t (resultValue @ [Elem newItem]))"
| "UnmarshalSliceOfMaps rt data result =
     (case result of
        Pointer (DSlice t elems) \<Rightarrow>
          (case appendMaps rt data t elems of
             Inl e \<Rightarrow> (Some e, result)
           | Inr resultValue \<Rightarrow> (None, Pointer (DSlice t resultValue)))
      | _ \<Rightarrow> (Some NotPtrToSlice, result))"
| "appendMaps rt [] t resultValue = Inr resultValue"
| "appendMaps rt (item # rest) t resultValue =
     (case Unmarshal rt (VMap item) (Pointer (zero t)) of
        (Some e, newItem) \<Rightarrow> Inl e
      | (None, newItem) \<Rightarrow> appendMaps rt rest t (resultValue @ [Elem newItem]))"
  by pat_completeness auto

termination
  by (relation "inv_image (less_than <*lex*> less_than <*lex*> less_than)
     (\<lambda>x. case x of
        Inl (Inl (rt, d, r)) \<Rightarrow> (of_bool (hasBytes d), size d, 3::nat)
      | Inl (Inr (Inl (rt, b, r))) \<Rightarrow> (1, 0, 0)
      | Inl (Inr (Inr (rt, xs, r))) \<Rightarrow> (of_bool (hasBytes (VSlice xs)), size (VSlice xs), 2)
      | Inr (Inl (rt, xs, t, acc)) \<Rightarrow> (of_bool (hasBytes (VSlice xs)), size (VSlice xs), 1)
      | Inr (Inr (Inl (rt, ms, r))) \<Rightarrow> (0, size (VSliceOfMaps ms), 2)
      | Inr (Inr (Inr (rt, ms, t, acc))) \<Rightarrow> (0, size (VSliceOfMaps ms), 1))")
    auto

declare Unmarshal.simps [simp del] UnmarshalBytes.simps [simp del]
  UnmarshalSlice.simps [simp del] UnmarshalSliceOfMaps.simps [simp del]

subsection \<open>Notions used to state the properties\<close>

text \<open>What the body of the loop of \<open>MapToStruct\<close> computes for one entry of the mapping:
  \<open>None\<close> when the entry is skipped by \<open>continue\<close> (no field of that name, or a field
  that cannot be set), otherwise the outcome of the switch.\<close>

definition fieldConversion ::
  "runtime \<Rightarrow> field list \<Rightarrow> string \<Rightarrow> iface \<Rightarrow> conversion option" where
  "fieldConversion rt fs key v =
     (case FieldByName fs key of
        None \<Rightarrow> None
      | Some f \<Rightarrow> if CanSet f then Some (convertByKind rt (Kind (ftyp f)) v) else None)"

text \<open>The panic of \<open>Set\<close> on the field of that name, if it panics; and an entry whose value
  converts and is then refused by \<open>Set\<close>.\<close>

definition setPanic :: "field list \<Rightarrow> string \<Rightarrow> error option" where
  "setPanic fs key =
     (case FieldByName fs key of
        None \<Rightarrow> None
      | Some f \<Rightarrow> if assignable (ftyp f) then None else Some (Panic (typeName (ftyp f))))"

fun panicsAt :: "runtime \<Rightarrow> field list \<Rightarrow> string \<times> iface \<Rightarrow> bool" where
  "panicsAt rt fs (k, v) =
     (case fieldConversion rt fs k v of
        Some (Converted c) \<Rightarrow> setPanic fs k \<noteq> None
      | _ \<Rightarrow> False)"

text \<open>An entry that reaches the \<open>default\<close> branch of the switch.\<close>

fun unsupportedAt :: "runtime \<Rightarrow> field list \<Rightarrow> string \<times> iface \<Rightarrow> bool" where
  "unsupportedAt rt fs (k, v) =
     (case fieldConversion rt fs k v of Some (Unsupported ty) \<Rightarrow> True | _ \<Rightarrow> False)"

text \<open>An entry at which the pass ends.\<close>

definition stopsAt :: "runtime \<Rightarrow> field list \<Rightarrow> string \<times> iface \<Rightarrow> bool" where
  "stopsAt rt fs kv = (unsupportedAt rt fs kv \<or> panicsAt rt fs kv)"

text \<open>The error with which the pass ends at such an entry: the structural error of the
  \<open>default\<close> branch, or the panic of \<open>Set\<close>.\<close>

fun stopError :: "runtime \<Rightarrow> field list \<Rightarrow> string \<times> iface \<Rightarrow> error" where
  "stopError rt fs (k, v) =
     (case fieldConversion rt fs k v of
        Some (Unsupported ty) \<Rightarrow> UnsupportedFieldType ty
      | _ \<Rightarrow> (case setPanic fs k of Some p \<Rightarrow> p | None \<Rightarrow> Panic []))"

text \<open>The Field Errors of a mapping, entry by entry, in the order of the entries.\<close>

fun fieldFailure :: "runtime \<Rightarrow> field list \<Rightarrow> string \<times> iface \<Rightarrow> error list" where
  "fieldFailure rt fs (k, v) =
     (case fieldConversion rt fs k v of
        Some (Failed e) \<Rightarrow> [FieldError k e True]
      | _ \<Rightarrow> [])"

definition fieldErrors :: "runtime \<Rightarrow> field list \<Rightarrow> (string \<times> iface) list \<Rightarrow> error list" where
  "fieldErrors rt fs m = concat (map (fieldFailure rt fs) m)"

text \<open>A field of one of the five kinds the switch knows.\<close>

fun supported :: "kind \<Rightarrow> bool" where
  "supported (KOther ty) = False"
| "supported _ = True"

text \<open>The entries that are not skipped: their key names a field that can be set.\<close>

definition matchesWritable :: "field list \<Rightarrow> string \<Rightarrow> bool" where
  "matchesWritable fs key = (case FieldByName fs key of None \<Rightarrow> False | Some f \<Rightarrow> CanSet f)"

text \<open>What the recursive \<open>Unmarshal(item, newItem)\<close> of the slice loops returns for one item,
  and the element it leaves in the fresh \<open>newItem\<close>.\<close>

definition itemError :: "runtime \<Rightarrow> dtype \<Rightarrow> iface \<Rightarrow> error option" where
  "itemError rt t item = fst (Unmarshal rt item (Pointer (zero t)))"

definition itemValue :: "runtime \<Rightarrow> dtype \<Rightarrow> iface \<Rightarrow> dvalue" where
  "itemValue rt t item = Elem (snd (Unmarshal rt item (Pointer (zero t))))"

subsection \<open>Data of the package's tests\<close>

text \<open>
  The struct \<open>Car\<close> of the test file, and a struct with a field that cannot be set and a
  field of struct kind.  \<open>testRuntime\<close> answers as the Go libraries do on the few documents
  and numbers used in the examples below (the JSON documents \<open>{}\<close>, \<open>[{},{}]\<close> and \<open>7\<close>,
  the numbers 100000.5 and 2020) and converts an unrepresentable float as amd64 does; it
  stands for the libraries nowhere else, and no general statement refers to it.
\<close>

definition CarT :: dtype where
  "CarT = TStruct [(''Brand'', True, Plain KString), (''Year'', True, Plain KInt),
                   (''Used'', True, Plain KBool), (''Price'', True, Plain KFloat64),
                   (''Document'', True, Plain KString)]"

definition car :: "field list" where
  "car = [\<lparr>name = ''Brand'', exported = True, ftyp = Plain KString, val = FString []\<rparr>,
          \<lparr>name = ''Year'', exported = True, ftyp = Plain KInt, val = FInt 0\<rparr>,
          \<lparr>name = ''Used'', exported = True, ftyp = Plain KBool, val = FBool False\<rparr>,
          \<lparr>name = ''Price'', exported = True, ftyp = Plain KFloat64, val = FFloat64 0\<rparr>,
          \<lparr>name = ''Document'', exported = True, ftyp = Plain KString, val = FString []\<rparr>]"

definition listing :: "field list" where
  "listing =
     [\<lparr>name = ''Brand'', exported = True, ftyp = Plain KString, val = FString []\<rparr>,
      \<lparr>name = ''Year'', exported = True, ftyp = Plain KInt, val = FInt 0\<rparr>,
      \<lparr>name = ''owner'', exported = False, ftyp = Plain KString, val = FString ''dealer''\<rparr>,
      \<lparr>name = ''Seller'', exported = True, ftyp = Plain (KOther ''transform.Person''),
        val = FOther ''transform.Person''\<rparr>]"

text \<open>A struct \<open>struct { Tags []string; Brand string }\<close>: the kind of \<open>Tags\<close> is \<open>Slice\<close>, its
  type is not \<open>[]interface{}\<close>.\<close>

definition tagged :: "field list" where
  "tagged =
     [\<lparr>name = ''Tags'', exported = True, ftyp = Unassignable KSlice ''[]string'', val = FSlice []\<rparr>,
      \<lparr>name = ''Brand'', exported = True, ftyp = Plain KString, val = FString []\<rparr>]"

definition taggedData :: "(string \<times> iface) list" where
  "taggedData = [(''Tags'', VSlice [VString ''new'']), (''Brand'', VString ''Toyota'')]"

definition testRuntime :: runtime where
  "testRuntime =
     \<lparr>json_map = (\<lambda>d. if d = ''{}'' then Inr []
         else if d = ''[{},{}]''
         then Inl (JSONError
           ''json: cannot unmarshal array into Go value of type map[string]interface {}'')
         else if d = ''7''
         then Inl (JSONError
           ''json: cannot unmarshal number into Go value of type map[string]interface {}'')
         else Inl (JSONError ''unexpected end of JSON input'')),
      json_maps = (\<lambda>d. if d = ''[{},{}]'' then Inr [[], []]
         else if d = ''{}''
         then Inl (JSONError
           ''json: cannot unmarshal object into Go value of type []map[string]interface {}'')
         else if d = ''7''
         then Inl (JSONError
           ''json: cannot unmarshal number into Go value of type []map[string]interface {}'')
         else Inl (JSONError ''unexpected end of JSON input'')),
      ParseFloat = (\<lambda>s. if s = ''100000.50'' \<or> s = ''100000.5'' then Inr 0x40F86A0800000000
                         else Inl (NumError ''ParseFloat'' s ErrSyntax)),
      float64_of_int = (\<lambda>i. if i = 2020 then 0x409F900000000000 else 0),
      Sprint_float64 = (\<lambda>f. if f = 0x40F86A0800000000 then ''100000.5'' else []),
      int_unrepresentable = (\<lambda>f. 0x8000000000000000)\<rparr>"

text \<open>The mappings of the tests \<open>TestUnmarshal_UseMap\<close>, \<open>..._InvalidType\<close> and
  \<open>..._DifferentType\<close>, a mapping with keys that name no field or a field that cannot be
  set, and one with a key for the field of struct kind.\<close>

definition testData :: "(string \<times> iface) list" where
  "testData =
     [(''Brand'', VString ''Toyota''), (''Year'', VInt 2020), (''Used'', VBool True),
      (''Price'', VFloat64 0x40F86A0800000000), (''Document'', VString ''123'')]"

definition invalidTypeData :: "(string \<times> iface) list" where
  "invalidTypeData =
     [(''Brand'', VString ''Toyota''), (''Year'', VString ''A''), (''Used'', VBool True),
      (''Price'', VString ''B''), (''Document'', VString ''123'')]"

definition differentTypeData :: "(string \<times> iface) list" where
  "differentTypeData =
     [(''Brand'', VString ''Toyota''), (''Year'', VString ''2020''), (''Used'', VBool True),
      (''Price'', VString ''100000.50''), (''Document'', VInt 123)]"

definition additionalData :: "(string \<times> iface) list" where
  "additionalData =
     [(''Additional'', VString ''Additional''), (''Brand'', VString ''Toyota''),
      (''owner'', VString ''nobody''), (''Additional2'', VInt 123)]"

definition sellerData :: "(string \<times> iface) list" where
  "sellerData =
     [(''Brand'', VString ''Toyota''), (''Year'', VString ''A''), (''Seller'', VNil),
      (''owner'', VString ''nobody'')]"

definition goodEntry :: "(string \<times> iface) list" where
  "goodEntry = [(''Brand'', VString ''Toyota''), (''Year'', VString ''2020'')]"

definition badEntry :: "(string \<times> iface) list" where
  "badEntry = [(''Brand'', VString ''Toyota''), (''Year'', VString ''A'')]"

section \<open>Properties\<close>

subsection \<open>Dispatch\<close>

lemma Unmarshal_VMap: "Unmarshal rt (VMap m) r = MapToStruct rt m r"
  by (simp add: Unmarshal.simps UnmarshalMap_def)

lemma Unmarshal_VSlice: "Unmarshal rt (VSlice xs) r = UnmarshalSlice rt xs r"
  by (simp add: Unmarshal.simps)

lemma Unmarshal_VSliceOfMaps: "Unmarshal rt (VSliceOfMaps ms) r = UnmarshalSliceOfMaps rt ms r"
  by (simp add: Unmarshal.simps)

lemma Unmarshal_VBytes: "Unmarshal rt (VBytes b) r = UnmarshalBytes rt b r"
  by (simp add: Unmarshal.simps)

subsection \<open>One step of the assignment loop\<close>

lemma FieldByName_SetField:
  "FieldByName (SetField fs k c) k' =
     (if k' = k then map_option (\<lambda>f. f\<lparr>val := c\<rparr>) (FieldByName fs k) else FieldByName fs k')"
  by (induction fs) auto

text \<open>Writing a field changes neither which fields exist, nor which can be set, nor
  their types.\<close>

lemma fieldConversion_SetField:
  "fieldConversion rt (SetField fs k c) k' v' = fieldConversion rt fs k' v'"
  by (auto simp: fieldConversion_def FieldByName_SetField CanSet_def split: option.splits)

lemma setPanic_SetField: "setPanic (SetField fs k c) k' = setPanic fs k'"
  by (auto simp: setPanic_def FieldByName_SetField split: option.splits)

lemma unsupportedAt_SetField: "unsupportedAt rt (SetField fs k c) kv = unsupportedAt rt fs kv"
  by (cases kv) (simp add: fieldConversion_SetField)

lemma panicsAt_SetField: "panicsAt rt (SetField fs k c) kv = panicsAt rt fs kv"
  by (cases kv)
    (simp add: fieldConversion_SetField setPanic_SetField split: option.splits conversion.splits)

lemma stopsAt_SetField: "stopsAt rt (SetField fs k c) kv = stopsAt rt fs kv"
  by (simp add: stopsAt_def unsupportedAt_SetField panicsAt_SetField)

lemma fieldFailure_SetField: "fieldFailure rt (SetField fs k c) kv = fieldFailure rt fs kv"
  by (cases kv) (simp add: fieldConversion_SetField)

lemma fieldErrors_SetField: "fieldErrors rt (SetField fs k c) m = fieldErrors rt fs m"
proof -
  have "fieldFailure rt (SetField fs k c) = fieldFailure rt fs"
    by (rule ext) (rule fieldFailure_SetField)
  then show ?thesis by (simp add: fieldErrors_def)
qed

lemma matchesWritable_iff:
  "matchesWritable fs k = (fieldConversion rt fs k v \<noteq> None)"
  by (simp add: fieldConversion_def matchesWritable_def split: option.splits)

lemma matchesWritable_SetField: "matchesWritable (SetField fs k c) k' = matchesWritable fs k'"
  by (simp add: matchesWritable_iff [where rt = undefined and v = undefined]
      fieldConversion_SetField)

lemmas SetField_frame =
  fieldConversion_SetField setPanic_SetField unsupportedAt_SetField panicsAt_SetField
  stopsAt_SetField fieldFailure_SetField fieldErrors_SetField matchesWritable_SetField

lemma assignFields_Cons:
  "assignFields rt ((k, v) # rest) fs acc =
     (case fieldConversion rt fs k v of
        None \<Rightarrow> assignFields rt rest fs acc
      | Some (Unsupported ty) \<Rightarrow> (Some (UnsupportedFieldType ty), fs)
      | Some (Failed e) \<Rightarrow> assignFields rt rest fs (Append acc (FieldError k e True))
      | Some (Converted c) \<Rightarrow>
          (case setPanic fs k of
             Some p \<Rightarrow> (Some p, fs)
           | None \<Rightarrow> assignFields rt rest (SetField fs k c) acc))"
  by (auto simp: fieldConversion_def setPanic_def split: option.splits conversion.splits)

declare assignFields.simps(2) [simp del]

text \<open>The four things an entry that does not end the pass can do.\<close>

lemma entry_cases [consumes 1, case_names skipped failed written]:
  assumes "\<not> stopsAt rt fs (k, v)"
    and "fieldConversion rt fs k v = None \<Longrightarrow> P"
    and "\<And>e. fieldConversion rt fs k v = Some (Failed e) \<Longrightarrow> P"
    and "\<And>c. fieldConversion rt fs k v = Some (Converted c) \<Longrightarrow> setPanic fs k = None \<Longrightarrow> P"
  shows P
proof (cases "fieldConversion rt fs k v")
  case None
  then show ?thesis by (rule assms(2))
next
  case (Some cv)
  show ?thesis
  proof (cases cv)
    case (Unsupported ty)
    with Some assms(1) show ?thesis by (simp add: stopsAt_def)
  next
    case (Failed e)
    with Some show ?thesis by (auto intro: assms(3))
  next
    case (Converted c)
    with Some assms(1) have "setPanic fs k = None" by (simp add: stopsAt_def)
    with Some Converted show ?thesis by (auto intro: assms(4))
  qed
qed

lemma assignFields_stop:
  "stopsAt rt fs (k, v) \<Longrightarrow>
   assignFields rt ((k, v) # rest) fs acc = (Some (stopError rt fs (k, v)), fs)"
  by (auto simp: assignFields_Cons stopsAt_def setPanic_def
      split: option.splits conversion.splits if_splits)

lemma stopError_not_FieldError: "stopsAt rt fs kv \<Longrightarrow> \<not> is_FieldError (stopError rt fs kv)"
  by (cases kv)
    (auto simp: stopsAt_def setPanic_def split: option.splits conversion.splits if_splits)

lemma stopError_SetField: "stopError rt (SetField fs k c) kv = stopError rt fs kv"
  by (cases kv) (simp add: SetField_frame split: option.splits conversion.splits)

text \<open>The pass never changes which fields exist, which can be set, or their kinds.\<close>

lemma fieldConversion_assignFields:
  "fieldConversion rt (snd (assignFields rt m fs acc)) k v = fieldConversion rt fs k v"
proof (induction m arbitrary: fs acc)
  case Nil
  show ?case by simp
next
  case (Cons kv m)
  obtain k0 v0 where kv: "kv = (k0, v0)" by (cases kv)
  show ?case
  proof (cases "stopsAt rt fs (k0, v0)")
    case True
    then show ?thesis by (simp add: kv assignFields_stop)
  next
    case False
    then show ?thesis
      by (cases rule: entry_cases) (simp_all add: kv assignFields_Cons Cons.IH SetField_frame)
  qed
qed

lemma setPanic_assignFields:
  "setPanic (snd (assignFields rt m fs acc)) k = setPanic fs k"
proof (induction m arbitrary: fs acc)
  case Nil
  show ?case by simp
next
  case (Cons kv m)
  obtain k0 v0 where kv: "kv = (k0, v0)" by (cases kv)
  show ?case
  proof (cases "stopsAt rt fs (k0, v0)")
    case True
    then show ?thesis by (simp add: kv assignFields_stop)
  next
    case False
    then show ?thesis
      by (cases rule: entry_cases) (simp_all add: kv assignFields_Cons Cons.IH SetField_frame)
  qed
qed

lemma stopsAt_assignFields:
  "stopsAt rt (snd (assignFields rt m fs acc)) kv = stopsAt rt fs kv"
  by (cases kv)
    (simp add: stopsAt_def fieldConversion_assignFields setPanic_assignFields
      split: option.splits conversion.splits)

lemma stopError_assignFields:
  "stopError rt (snd (assignFields rt m fs acc)) kv = stopError rt fs kv"
  by (cases kv)
    (simp add: fieldConversion_assignFields setPanic_assignFields
      split: option.splits conversion.splits)

subsection \<open>The whole loop\<close>

lemma Errors_Append: "Errors (Append acc (FieldError k e a)) = Errors acc @ [FieldError k e a]"
  by (cases "(acc, FieldError k e a)" rule: Append.cases) auto

lemma Append_neq_None: "Append acc e \<noteq> None"
  by (cases "(acc, e)" rule: Append.cases) auto

lemma fieldErrors_Cons: "fieldErrors rt fs (kv # m) = fieldFailure rt fs kv @ fieldErrors rt fs m"
  by (simp add: fieldErrors_def)

lemma assignFields_errors:
  "\<forall>kv \<in> set m. \<not> stopsAt rt fs kv \<Longrightarrow>
   Errors (fst (assignFields rt m fs acc)) = Errors acc @ fieldErrors rt fs m"
proof (induction m arbitrary: fs acc)
  case Nil
  show ?case by (simp add: fieldErrors_def)
next
  case (Cons kv m)
  obtain k0 v0 where kv: "kv = (k0, v0)" by (cases kv)
  from Cons.prems have ns: "\<not> stopsAt rt fs (k0, v0)"
    and rest: "\<forall>kv \<in> set m. \<not> stopsAt rt fs kv" by (simp_all add: kv)
  from ns show ?case
  proof (cases rule: entry_cases)
    case skipped
    with Cons.IH [OF rest] show ?thesis by (simp add: kv assignFields_Cons fieldErrors_Cons)
  next
    case (failed e)
    with Cons.IH [OF rest] show ?thesis
      by (simp add: kv assignFields_Cons fieldErrors_Cons Errors_Append)
  next
    case (written c)
    from rest have "\<forall>kv \<in> set m. \<not> stopsAt rt (SetField fs k0 c) kv"
      by (simp add: SetField_frame)
    from Cons.IH [OF this] written show ?thesis
      by (simp add: kv assignFields_Cons fieldErrors_Cons SetField_frame)
  qed
qed

lemma assignFields_nil_iff:
  "\<forall>kv \<in> set m. \<not> stopsAt rt fs kv \<Longrightarrow>
   (fst (assignFields rt m fs acc) = None) = (acc = None \<and> fieldErrors rt fs m = [])"
proof (induction m arbitrary: fs acc)
  case Nil
  show ?case by (simp add: fieldErrors_def)
next
  case (Cons kv m)
  obtain k0 v0 where kv: "kv = (k0, v0)" by (cases kv)
  from Cons.prems have ns: "\<not> stopsAt rt fs (k0, v0)"
    and rest: "\<forall>kv \<in> set m. \<not> stopsAt rt fs kv" by (simp_all add: kv)
  from ns show ?case
  proof (cases rule: entry_cases)
    case skipped
    with Cons.IH [OF rest] show ?thesis by (simp add: kv assignFields_Cons fieldErrors_Cons)
  next
    case (failed e)
    with Cons.IH [OF rest] show ?thesis
      by (simp add: kv assignFields_Cons fieldErrors_Cons Append_neq_None)
  next
    case (written c)
    from rest have "\<forall>kv \<in> set m. \<not> stopsAt rt (SetField fs k0 c) kv"
      by (simp add: SetField_frame)
    from Cons.IH [OF this] written show ?thesis
      by (simp add: kv assignFields_Cons fieldErrors_Cons SetField_frame)
  qed
qed

text \<open>The fields after a pass that no entry ends, for a mapping with distinct keys.\<close>

lemma assignFields_fields:
  "\<forall>kv \<in> set m. \<not> stopsAt rt fs kv \<Longrightarrow> distinct (map fst m) \<Longrightarrow>
   FieldByName (snd (assignFields rt m fs acc)) k =
     (case map_of m k of
        None \<Rightarrow> FieldByName fs k
      | Some v \<Rightarrow>
         (case fieldConversion rt fs k v of
            Some (Converted c) \<Rightarrow> map_option (\<lambda>f. f\<lparr>val := c\<rparr>) (FieldByName fs k)
          | _ \<Rightarrow> FieldByName fs k))"
proof (induction m arbitrary: fs acc)
  case Nil
  show ?case by simp
next
  case (Cons kv m)
  obtain k0 v0 where kv: "kv = (k0, v0)" by (cases kv)
  from Cons.prems have notin: "map_of m k0 = None" and dist: "distinct (map fst m)"
    by (auto simp: kv map_of_eq_None_iff)
  from Cons.prems have ns: "\<not> stopsAt rt fs (k0, v0)"
    and rest: "\<forall>kv \<in> set m. \<not> stopsAt rt fs kv" by (simp_all add: kv)
  from ns show ?case
  proof (cases rule: entry_cases)
    case skipped
    with Cons.IH [OF rest dist, of acc] show ?thesis
      by (auto simp: kv assignFields_Cons notin)
  next
    case (failed e)
    with Cons.IH [OF rest dist, of "Append acc (FieldError k0 e True)"] show ?thesis
      by (auto simp: kv assignFields_Cons notin)
  next
    case (written c)
    from rest have "\<forall>kv \<in> set m. \<not> stopsAt rt (SetField fs k0 c) kv"
      by (simp add: SetField_frame)
    from Cons.IH [OF this dist, of acc] written show ?thesis
      by (auto simp: kv assignFields_Cons notin SetField_frame FieldByName_SetField
          split: option.splits conversion.splits)
  qed
qed

lemma assignFields_append:
  "\<forall>kv \<in> set pre. \<not> stopsAt rt fs kv \<Longrightarrow>
   assignFields rt (pre @ rest) fs acc =
     assignFields rt rest (snd (assignFields rt pre fs acc)) (fst (assignFields rt pre fs acc))"
proof (induction pre arbitrary: fs acc)
  case Nil
  show ?case by simp
next
  case (Cons kv pre)
  obtain k0 v0 where kv: "kv = (k0, v0)" by (cases kv)
  from Cons.prems have ns: "\<not> stopsAt rt fs (k0, v0)"
    and rest: "\<forall>kv \<in> set pre. \<not> stopsAt rt fs kv" by (simp_all add: kv)
  from ns show ?case
  proof (cases rule: entry_cases)
    case skipped
    with Cons.IH [OF rest] show ?thesis by (simp add: kv assignFields_Cons)
  next
    case (failed e)
    with Cons.IH [OF rest] show ?thesis by (simp add: kv assignFields_Cons)
  next
    case (written c)
    from rest have "\<forall>kv \<in> set pre. \<not> stopsAt rt (SetField fs k0 c) kv"
      by (simp add: SetField_frame)
    from Cons.IH [OF this] written show ?thesis by (simp add: kv assignFields_Cons)
  qed
qed

lemma assignFields_abort:
  assumes "\<forall>kv \<in> set pre. \<not> stopsAt rt fs kv" and "stopsAt rt fs (k, v)"
  shows "assignFields rt (pre @ (k, v) # post) fs acc =
           (Some (stopError rt fs (k, v)), snd (assignFields rt pre fs acc))"
  using assms
  by (simp add: assignFields_append assignFields_stop stopsAt_assignFields
      stopError_assignFields del: stopError.simps)

lemma assignFields_ignored:
  "assignFields rt (filter (\<lambda>(k, v). matchesWritable fs k) m) fs acc = assignFields rt m fs acc"
proof (induction m arbitrary: fs acc)
  case Nil
  show ?case by simp
next
  case (Cons kv m)
  obtain k0 v0 where kv: "kv = (k0, v0)" by (cases kv)
  show ?case
  proof (cases "stopsAt rt fs (k0, v0)")
    case True
    then have "matchesWritable fs k0"
      by (auto simp: matchesWritable_iff [of fs k0 rt v0] stopsAt_def split: option.splits)
    with True show ?thesis by (simp add: kv assignFields_stop)
  next
    case False
    then show ?thesis
    proof (cases rule: entry_cases)
      case skipped
      then have "\<not> matchesWritable fs k0" by (simp add: matchesWritable_iff [of fs k0 rt v0])
      with skipped Cons show ?thesis by (simp add: kv assignFields_Cons)
    next
      case (failed e)
      then have "matchesWritable fs k0" by (simp add: matchesWritable_iff [of fs k0 rt v0])
      with failed Cons show ?thesis by (simp add: kv assignFields_Cons)
    next
      case (written c)
      then have mw: "matchesWritable fs k0" by (simp add: matchesWritable_iff [of fs k0 rt v0])
      have "(\<lambda>(k, v). matchesWritable (SetField fs k0 c) k) =
            (\<lambda>(k, v :: iface). matchesWritable fs k)"
        by (simp add: SetField_frame)
      with Cons.IH [of "SetField fs k0 c" acc] mw written show ?thesis
        by (simp add: kv assignFields_Cons)
    qed
  qed
qed

lemma assignFields_absent:
  "k \<notin> fst ` set m \<Longrightarrow> FieldByName (snd (assignFields rt m fs acc)) k = FieldByName fs k"
proof (induction m arbitrary: fs acc)
  case Nil
  show ?case by simp
next
  case (Cons kv m)
  obtain k0 v0 where kv: "kv = (k0, v0)" by (cases kv)
  with Cons.prems have ne: "k \<noteq> k0" and notin: "k \<notin> fst ` set m" by auto
  show ?case
  proof (cases "stopsAt rt fs (k0, v0)")
    case True
    then show ?thesis by (simp add: kv assignFields_stop)
  next
    case False
    then show ?thesis
      using Cons.IH [OF notin] ne
      by (cases rule: entry_cases) (simp_all add: kv assignFields_Cons FieldByName_SetField)
  qed
qed

text \<open>Only the entries before the first one that ends the pass act on the fields.\<close>

lemma assignFields_takeWhile:
  "snd (assignFields rt m fs acc) =
   snd (assignFields rt (takeWhile (\<lambda>kv. \<not> stopsAt rt fs kv) m) fs acc)"
proof (induction m arbitrary: fs acc)
  case Nil
  show ?case by simp
next
  case (Cons kv m)
  obtain k0 v0 where kv: "kv = (k0, v0)" by (cases kv)
  show ?case
  proof (cases "stopsAt rt fs (k0, v0)")
    case True
    then show ?thesis by (simp add: kv assignFields_stop)
  next
    case False
    then show ?thesis
    proof (cases rule: entry_cases)
      case skipped
      with False Cons show ?thesis by (simp add: kv assignFields_Cons)
    next
      case (failed e)
      with False Cons show ?thesis by (simp add: kv assignFields_Cons)
    next
      case (written c)
      have "(\<lambda>kv. \<not> stopsAt rt (SetField fs k0 c) kv) = (\<lambda>kv. \<not> stopsAt rt fs kv)"
        by (simp add: SetField_frame)
      with Cons.IH [of "SetField fs k0 c" acc] False written show ?thesis
        by (simp add: kv assignFields_Cons)
    qed
  qed
qed

lemma filter_fieldErrors:
  "distinct (map fst m) \<Longrightarrow>
   filter (\<lambda>x. Field x = k) (fieldErrors rt fs m) =
     (case map_of m k of None \<Rightarrow> [] | Some v \<Rightarrow> fieldFailure rt fs (k, v))"
proof (induction m)
  case Nil
  show ?case by (simp add: fieldErrors_def)
next
  case (Cons kv m)
  obtain k0 v0 where kv: "kv = (k0, v0)" by (cases kv)
  from Cons.prems have notin: "map_of m k0 = None" and dist: "distinct (map fst m)"
    by (auto simp: kv map_of_eq_None_iff)
  from Cons.IH [OF dist] notin show ?case
    by (auto simp: kv fieldErrors_Cons Field_def split: option.splits conversion.splits)
qed

lemma fieldErrors_empty_iff:
  "(fieldErrors rt fs m = []) = (\<forall>kv \<in> set m. fieldFailure rt fs kv = [])"
  by (auto simp: fieldErrors_def)

lemma fieldErrors_mem:
  "x \<in> set (fieldErrors rt fs m) \<Longrightarrow>
   \<exists>k v e. (k, v) \<in> set m \<and> fieldConversion rt fs k v = Some (Failed e) \<and> x = FieldError k e True"
  by (fastforce simp: fieldErrors_def split: option.splits conversion.splits)

subsection \<open>The slice loops\<close>

lemma appendItems_find:
  "appendItems rt items t acc =
     (case find (\<lambda>x. itemError rt t x \<noteq> None) items of
        Some bad \<Rightarrow> Inl (the (itemError rt t bad))
      | None \<Rightarrow> Inr (acc @ map (itemValue rt t) items))"
proof (induction items arbitrary: acc)
  case Nil
  show ?case by simp
next
  case (Cons item items)
  obtain e r where u: "Unmarshal rt item (Pointer (zero t)) = (e, r)"
    by (cases "Unmarshal rt item (Pointer (zero t))")
  show ?case
    by (cases e) (simp_all add: u Cons.IH itemError_def itemValue_def split: option.splits)
qed

lemma appendMaps_appendItems:
  "appendMaps rt ms t acc = appendItems rt (map VMap ms) t acc"
proof (induction ms arbitrary: acc)
  case Nil
  show ?case by simp
next
  case (Cons m ms)
  then show ?case by (simp split: prod.splits option.splits)
qed

lemma UnmarshalSliceOfMaps_UnmarshalSlice:
  "UnmarshalSliceOfMaps rt ms r = UnmarshalSlice rt (map VMap ms) r"
  by (simp add: UnmarshalSliceOfMaps.simps UnmarshalSlice.simps appendMaps_appendItems
      split: result.splits dvalue.splits)

lemma UnmarshalSlice_fail:
  assumes "find (\<lambda>x. itemError rt t x \<noteq> None) items = Some bad"
  shows "UnmarshalSlice rt items (Pointer (DSlice t old)) = (itemError rt t bad, Pointer (DSlice t old))"
proof -
  from assms have "itemError rt t bad \<noteq> None"
    by (auto simp: find_Some_iff)
  with assms show ?thesis
    by (auto simp: UnmarshalSlice.simps appendItems_find)
qed

lemma UnmarshalSlice_ok:
  assumes "find (\<lambda>x. itemError rt t x \<noteq> None) items = None"
  shows "UnmarshalSlice rt items (Pointer (DSlice t old)) =
           (None, Pointer (DSlice t (old @ map (itemValue rt t) items)))"
  using assms by (simp add: UnmarshalSlice.simps appendItems_find)

lemma find_first:
  "P x \<Longrightarrow> \<forall>y \<in> set ys. \<not> P y \<Longrightarrow> find P (ys @ x # zs) = Some x"
  by (induction ys) auto

lemma UnmarshalSlice_first_error:
  assumes "\<exists>x \<in> set items. itemError rt t x \<noteq> None"
  shows "\<exists>pre bad post. items = pre @ bad # post \<and> (\<forall>x \<in> set pre. itemError rt t x = None) \<and>
           itemError rt t bad \<noteq> None \<and>
           UnmarshalSlice rt items (Pointer (DSlice t old)) =
             (itemError rt t bad, Pointer (DSlice t old))"
proof -
  from split_list_first_prop [OF assms] obtain pre bad post where
    items: "items = pre @ bad # post" and bad: "itemError rt t bad \<noteq> None"
    and pre: "\<forall>x \<in> set pre. \<not> itemError rt t x \<noteq> None"
    by blast
  have "find (\<lambda>x. itemError rt t x \<noteq> None) items = Some bad"
    unfolding items using bad pre by (rule find_first)
  from UnmarshalSlice_fail [OF this] items bad pre show ?thesis by blast
qed

lemma UnmarshalSlice_success:
  assumes "fst (UnmarshalSlice rt items (Pointer (DSlice t old))) = None"
  shows "snd (UnmarshalSlice rt items (Pointer (DSlice t old))) =
           Pointer (DSlice t (old @ map (itemValue rt t) items))"
proof (cases "find (\<lambda>x. itemError rt t x \<noteq> None) items")
  case None
  from UnmarshalSlice_ok [OF this] show ?thesis by simp
next
  case (Some bad)
  then have "itemError rt t bad \<noteq> None" by (auto simp: find_Some_iff)
  with UnmarshalSlice_fail [OF Some, of old] assms show ?thesis by simp
qed

subsection \<open>Facts about single fields and about the entry that ends the pass\<close>

lemma FieldByName_mem: "FieldByName fs k = Some f \<Longrightarrow> f \<in> set fs"
  by (induction fs) (auto split: if_splits)

lemma supported_converts: "supported k \<Longrightarrow> convertByKind rt k v \<noteq> Unsupported ty"
  by (cases k) (auto elim!: conv.elims)

lemma supported_no_abort:
  assumes "\<forall>f \<in> set fs. supported (Kind (ftyp f))"
  shows "\<not> unsupportedAt rt fs kv"
proof (cases kv)
  case (Pair k v)
  show ?thesis
  proof (cases "FieldByName fs k")
    case None
    then show ?thesis by (simp add: Pair fieldConversion_def)
  next
    case (Some f)
    with assms have "supported (Kind (ftyp f))" by (auto dest: FieldByName_mem)
    then show ?thesis
      by (auto simp: Pair fieldConversion_def Some supported_converts
          split: conversion.splits)
  qed
qed

text \<open>\<open>Set\<close> never panics on a struct whose fields have the types the converters return.\<close>

lemma assignable_no_panic:
  assumes "\<forall>f \<in> set fs. assignable (ftyp f)"
  shows "\<not> panicsAt rt fs kv"
proof (cases kv)
  case (Pair k v)
  show ?thesis
  proof (cases "FieldByName fs k")
    case None
    then show ?thesis by (simp add: Pair fieldConversion_def)
  next
    case (Some f)
    with assms have "assignable (ftyp f)" by (auto dest: FieldByName_mem)
    then show ?thesis
      by (simp add: Pair setPanic_def Some split: option.splits conversion.splits)
  qed
qed

lemma MapToStruct_struct:
  "MapToStruct rt m (Pointer (DStruct fs)) =
     (fst (assignFields rt m fs None), Pointer (DStruct (snd (assignFields rt m fs None))))"
  by (simp add: MapToStruct_def split: prod.splits)

lemma fieldConversion_SomeD:
  "fieldConversion rt fs k v = Some cv \<Longrightarrow>
   \<exists>f. FieldByName fs k = Some f \<and> CanSet f \<and> convertByKind rt (Kind (ftyp f)) v = cv"
  by (auto simp: fieldConversion_def split: option.splits if_splits)

lemma fieldConversion_field:
  "FieldByName fs k = Some f \<Longrightarrow> CanSet f \<Longrightarrow>
   fieldConversion rt fs k v = Some (convertByKind rt (Kind (ftyp f)) v)"
  by (simp add: fieldConversion_def)


lemma stop_split:
  assumes "\<exists>kv \<in> set m. stopsAt rt fs kv"
  shows "\<exists>pre k v post. m = pre @ (k, v) # post \<and> (\<forall>x \<in> set pre. \<not> stopsAt rt fs x) \<and>
           stopsAt rt fs (k, v)"
proof -
  from split_list_first_prop [OF assms] obtain pre kv post where
    "m = pre @ kv # post" "stopsAt rt fs kv" "\<forall>x \<in> set pre. \<not> stopsAt rt fs x"
    by blast
  then show ?thesis by (cases kv) blast
qed

text \<open>The error of the entry that ends the pass, by what the switch gave for it.\<close>

lemma stopError_cause:
  assumes "stopsAt rt fs (k, v)"
  shows "\<exists>f. FieldByName fs k = Some f \<and> CanSet f \<and>
           (case convertByKind rt (Kind (ftyp f)) v of
              Unsupported ty \<Rightarrow> stopError rt fs (k, v) = UnsupportedFieldType ty
            | Failed cause \<Rightarrow> False
            | Converted c \<Rightarrow>
                \<not> assignable (ftyp f) \<and> stopError rt fs (k, v) = Panic (typeName (ftyp f)))"
proof -
  from assms obtain cv where fc: "fieldConversion rt fs k v = Some cv"
    by (cases "fieldConversion rt fs k v") (auto simp: stopsAt_def)
  from fieldConversion_SomeD [OF fc] obtain f where
    f: "FieldByName fs k = Some f" "CanSet f" "convertByKind rt (Kind (ftyp f)) v = cv"
    by blast
  from assms fc f show ?thesis
    by (cases cv) (auto simp: stopsAt_def setPanic_def split: if_splits)
qed

lemma Errors_stopError:
  "stopsAt rt fs kv \<Longrightarrow> Errors (Some (stopError rt fs kv)) = [stopError rt fs kv]"
  by (cases kv)
    (auto simp: stopsAt_def setPanic_def split: option.splits conversion.splits if_splits)

lemma distinct_takeWhile_keys:
  "distinct (map fst m) \<Longrightarrow> distinct (map fst (takeWhile P m))"
  by (induction m) (auto dest: set_takeWhileD)

text \<open>The defining equations used to evaluate the model on concrete data.\<close>

lemmas eval =
  itemError_def itemValue_def Unmarshal_VMap Unmarshal_VSlice Unmarshal_VSliceOfMaps Unmarshal_VBytes
  UnmarshalBytes.simps UnmarshalSlice.simps UnmarshalSliceOfMaps.simps
  MapToStruct_def CarT_def car_def listing_def tagged_def taggedData_def testRuntime_def
  assignFields_Cons fieldConversion_def setPanic_def CanSet_def matchesWritable_def
  fieldErrors_def
  ConvertString_def ConvertInt_def ConvertFloat64_def ConvertBool_def ConvertSlice_def
  Atoi_def isDigit_def Itoa_def utoa.simps IsFieldAffected_def Field_def
  testData_def invalidTypeData_def differentTypeData_def additionalData_def sellerData_def
  goodEntry_def badEntry_def

section \<open>The package's tests, on the model\<close>

lemma test_UseMap:
  "Unmarshal testRuntime (VMap testData) (Pointer (DStruct car)) =
     (None, Pointer (DStruct
        [\<lparr>name = ''Brand'', exported = True, ftyp = Plain KString, val = FString ''Toyota''\<rparr>,
         \<lparr>name = ''Year'', exported = True, ftyp = Plain KInt, val = FInt 2020\<rparr>,
         \<lparr>name = ''Used'', exported = True, ftyp = Plain KBool, val = FBool True\<rparr>,
         \<lparr>name = ''Price'', exported = True, ftyp = Plain KFloat64,
           val = FFloat64 0x40F86A0800000000\<rparr>,
         \<lparr>name = ''Document'', exported = True, ftyp = Plain KString, val = FString ''123''\<rparr>]))"
  by (simp add: eval)

lemma test_UseMap_DifferentType:
  "Unmarshal testRuntime (VMap differentTypeData) (Pointer (DStruct car)) =
     Unmarshal testRuntime (VMap testData) (Pointer (DStruct car))"
  by (simp add: eval)

lemma test_UseMap_InvalidType:
  "Unmarshal testRuntime (VMap invalidTypeData) (Pointer (DStruct car)) =
     (Some (MultiError [FieldError ''Year'' (NumError ''Atoi'' ''A'' ErrSyntax) True,
                        FieldError ''Price'' (NumError ''ParseFloat'' ''B'' ErrSyntax) True]),
      Pointer (DStruct
        [\<lparr>name = ''Brand'', exported = True, ftyp = Plain KString, val = FString ''Toyota''\<rparr>,
         \<lparr>name = ''Year'', exported = True, ftyp = Plain KInt, val = FInt 0\<rparr>,
         \<lparr>name = ''Used'', exported = True, ftyp = Plain KBool, val = FBool True\<rparr>,
         \<lparr>name = ''Price'', exported = True, ftyp = Plain KFloat64, val = FFloat64 0\<rparr>,
         \<lparr>name = ''Document'', exported = True, ftyp = Plain KString, val = FString ''123''\<rparr>]))"
  by (simp add: eval)

lemma test_UseSliceOfMaps:
  "Unmarshal testRuntime (VSliceOfMaps [testData, testData]) (Pointer (DSlice CarT [])) =
     (None, Pointer (DSlice CarT
        [Elem (snd (Unmarshal testRuntime (VMap testData) (Pointer (DStruct car)))),
         Elem (snd (Unmarshal testRuntime (VMap testData) (Pointer (DStruct car))))]))"
  by (simp add: eval)

lemma test_UseUnsupportedType:
  "Unmarshal rt (VInt 123) r = (Some (UnsupportedDataType (VInt 123)), r)"
  by (simp add: Unmarshal.simps)

lemma test_converters:
  "ConvertInt rt (VString ''2020'') = Inr 2020"
  "ConvertInt rt (VInt 2020) = Inr 2020"
  "ConvertInt rt (VString ''A'') = Inl (NumError ''Atoi'' ''A'' ErrSyntax)"
  "ConvertString rt (VInt 2020) = Inr ''2020''"
  "ConvertString rt (VBool True) = Inr ''true''"
  by (simp_all add: eval)

section \<open>The assignment pass on a struct whose fields have the converters' types\<close>

text \<open>
  For a mapping with distinct keys and a struct all of whose fields have one of the five
  kinds and the type the converter of that kind returns, the pass goes through every
  entry: a field that can be set and whose value converts holds the converted value
  afterwards; one whose value does not convert keeps its value and accounts for exactly
  one Field Error; the errors returned are these Field Errors in the order of the entries,
  and the call returns \<open>nil\<close> exactly when no conversion failed.
\<close>

lemma MapToStruct_partial_failure:
  assumes "distinct (map fst m)" and "\<forall>f \<in> set fs. supported (Kind (ftyp f))"
    and "\<forall>f \<in> set fs. assignable (ftyp f)"
  shows "\<exists>e fs'. Unmarshal rt (VMap m) (Pointer (DStruct fs)) = (e, Pointer (DStruct fs')) \<and>
     (\<forall>(k, v) \<in> set m. \<forall>f. FieldByName fs k = Some f \<and> CanSet f \<longrightarrow>
        (case convertByKind rt (Kind (ftyp f)) v of
           Converted c \<Rightarrow> FieldByName fs' k = Some (f\<lparr>val := c\<rparr>)
         | Failed cause \<Rightarrow>
             FieldByName fs' k = Some f \<and>
             filter (\<lambda>x. Field x = k) (Errors e) = [FieldError k cause True]
         | Unsupported ty \<Rightarrow> False)) \<and>
     Errors e = fieldErrors rt fs m \<and>
     (e = None) =
       (\<forall>(k, v) \<in> set m. \<forall>cause. fieldConversion rt fs k v \<noteq> Some (Failed cause))"
proof -
  define e where "e = fst (assignFields rt m fs None)"
  define fs' where "fs' = snd (assignFields rt m fs None)"
  have na: "\<forall>kv \<in> set m. \<not> stopsAt rt fs kv"
    using assms(2,3) by (simp add: stopsAt_def supported_no_abort assignable_no_panic)
  have res: "Unmarshal rt (VMap m) (Pointer (DStruct fs)) = (e, Pointer (DStruct fs'))"
    by (simp add: Unmarshal_VMap MapToStruct_struct e_def fs'_def)
  have errs: "Errors e = fieldErrors rt fs m"
    unfolding e_def using assignFields_errors [OF na, of None] by simp
  have nil: "(e = None) =
       (\<forall>(k, v) \<in> set m. \<forall>cause. fieldConversion rt fs k v \<noteq> Some (Failed cause))"
    unfolding e_def using assignFields_nil_iff [OF na, of None]
    by (auto simp: fieldErrors_empty_iff split: option.splits conversion.splits)
  have flds: "case convertByKind rt (Kind (ftyp f)) v of
           Converted c \<Rightarrow> FieldByName fs' k = Some (f\<lparr>val := c\<rparr>)
         | Failed cause \<Rightarrow>
             FieldByName fs' k = Some f \<and>
             filter (\<lambda>x. Field x = k) (Errors e) = [FieldError k cause True]
         | Unsupported ty \<Rightarrow> False"
    if kv: "(k, v) \<in> set m" and f: "FieldByName fs k = Some f" "CanSet f" for k v f
  proof -
    from kv assms(1) have mk: "map_of m k = Some v" by simp
    have fc: "fieldConversion rt fs k v = Some (convertByKind rt (Kind (ftyp f)) v)"
      using f by (rule fieldConversion_field)
    have "\<not> unsupportedAt rt fs (k, v)" using assms(2) by (rule supported_no_abort)
    with fc have ns: "\<And>ty. convertByKind rt (Kind (ftyp f)) v \<noteq> Unsupported ty"
      by (auto split: conversion.splits)
    have fld: "FieldByName fs' k =
        (case convertByKind rt (Kind (ftyp f)) v of
           Converted c \<Rightarrow> Some (f\<lparr>val := c\<rparr>) | _ \<Rightarrow> Some f)"
      unfolding fs'_def using assignFields_fields [OF na assms(1), of None k]
      by (simp add: mk fc f split: conversion.splits)
    have "filter (\<lambda>x. Field x = k) (Errors e) = fieldFailure rt fs (k, v)"
      using filter_fieldErrors [OF assms(1), of k rt fs] by (simp add: errs mk)
    with fld ns show ?thesis
      by (cases "convertByKind rt (Kind (ftyp f)) v") (auto simp: fc)
  qed
  from res errs nil flds show ?thesis by blast
qed

section \<open>The claims\<close>

text \<open>
  Claim C1.  The claim fails on a struct whose fields all have supported kinds: in
  \<open>struct { Tags []string; Brand string }\<close> the field \<open>Tags\<close> has kind \<open>Slice\<close>, the list
  \<open>["new"]\<close> converts without error, and \<open>Set\<close> then panics, the converted value being a
  \<open>[]interface{}\<close>.  \<open>Tags\<close> is not set, no Field Error is made, and the keys after it are
  not processed: with \<open>Tags\<close> visited first \<open>Brand\<close> stays empty, with \<open>Brand\<close> visited
  first it is written before the panic.
\<close>

theorem C1_Set_panics_on_field_of_supported_kind:
  "list_all (\<lambda>f. supported (Kind (ftyp f)) \<and> CanSet f) tagged \<and>
   distinct (map fst taggedData) \<and>
   fieldConversion testRuntime tagged ''Tags'' (VSlice [VString ''new'']) =
     Some (Converted (FSlice [VString ''new''])) \<and>
   fieldConversion testRuntime tagged ''Brand'' (VString ''Toyota'') =
     Some (Converted (FString ''Toyota'')) \<and>
   Unmarshal testRuntime (VMap taggedData) (Pointer (DStruct tagged)) =
     (Some (Panic ''[]string''), Pointer (DStruct tagged)) \<and>
   Unmarshal testRuntime (VMap (rev taggedData)) (Pointer (DStruct tagged)) =
     (Some (Panic ''[]string''),
      Pointer (DStruct
        [\<lparr>name = ''Tags'', exported = True, ftyp = Unassignable KSlice ''[]string'',
           val = FSlice []\<rparr>,
         \<lparr>name = ''Brand'', exported = True, ftyp = Plain KString, val = FString ''Toyota''\<rparr>]))"
  by (simp add: eval)

text \<open>
  Claim C2.  For a list of generic values, and for a list of mappings, and a pointer to a
  slice: if the recursive \<open>Unmarshal\<close> of some item returns an error, then there is a first
  such item, the call returns exactly the error of that item, and the destination slice
  is as it was.
\<close>

theorem C2_first_failing_item_aborts:
  "((\<exists>x \<in> set items. itemError rt t x \<noteq> None) \<longrightarrow>
      (\<exists>pre bad post. items = pre @ bad # post \<and> (\<forall>x \<in> set pre. itemError rt t x = None) \<and>
         itemError rt t bad \<noteq> None \<and>
         Unmarshal rt (VSlice items) (Pointer (DSlice t old)) =
           (itemError rt t bad, Pointer (DSlice t old)))) \<and>
   ((\<exists>m \<in> set maps. itemError rt t (VMap m) \<noteq> None) \<longrightarrow>
      (\<exists>pre bad post. maps = pre @ bad # post \<and>
         (\<forall>m \<in> set pre. itemError rt t (VMap m) = None) \<and>
         itemError rt t (VMap bad) \<noteq> None \<and>
         Unmarshal rt (VSliceOfMaps maps) (Pointer (DSlice t old)) =
           (itemError rt t (VMap bad), Pointer (DSlice t old))))"
proof (intro conjI impI)
  assume "\<exists>x \<in> set items. itemError rt t x \<noteq> None"
  from UnmarshalSlice_first_error [OF this, of old]
  show "\<exists>pre bad post. items = pre @ bad # post \<and> (\<forall>x \<in> set pre. itemError rt t x = None) \<and>
         itemError rt t bad \<noteq> None \<and>
         Unmarshal rt (VSlice items) (Pointer (DSlice t old)) =
           (itemError rt t bad, Pointer (DSlice t old))"
    by (simp add: Unmarshal_VSlice)
next
  assume "\<exists>m \<in> set maps. itemError rt t (VMap m) \<noteq> None"
  then have "\<exists>x \<in> set (map VMap maps). itemError rt t x \<noteq> None" by simp
  from UnmarshalSlice_first_error [OF this, of old] obtain pre bad post where
    eq: "map VMap maps = pre @ bad # post" and pre: "\<forall>x \<in> set pre. itemError rt t x = None"
    and bad: "itemError rt t bad \<noteq> None"
    and res: "UnmarshalSlice rt (map VMap maps) (Pointer (DSlice t old)) =
                (itemError rt t bad, Pointer (DSlice t old))"
    by blast
  from eq obtain pre' bad' post' where
    maps: "maps = pre' @ bad' # post'" and p: "pre = map VMap pre'" and b: "bad = VMap bad'"
    by (auto simp: map_eq_append_conv map_eq_Cons_conv)
  from pre p have "\<forall>m \<in> set pre'. itemError rt t (VMap m) = None" by simp
  with maps bad b res
  show "\<exists>pre bad post. maps = pre @ bad # post \<and>
         (\<forall>m \<in> set pre. itemError rt t (VMap m) = None) \<and>
         itemError rt t (VMap bad) \<noteq> None \<and>
         Unmarshal rt (VSliceOfMaps maps) (Pointer (DSlice t old)) =
           (itemError rt t (VMap bad), Pointer (DSlice t old))"
    by (auto simp: Unmarshal_VSliceOfMaps UnmarshalSliceOfMaps_UnmarshalSlice)
qed

text \<open>Witness for C2: three items of which the second fails, into a slice that already
  holds one \<open>Car\<close>.\<close>

theorem C2_witness:
  "(\<exists>x \<in> set [VMap goodEntry, VMap badEntry, VMap goodEntry]. itemError testRuntime CarT x \<noteq> None) \<and>
   (\<exists>pre bad post. [VMap goodEntry, VMap badEntry, VMap goodEntry] = pre @ bad # post \<and>
      (\<forall>x \<in> set pre. itemError testRuntime CarT x = None) \<and>
      itemError testRuntime CarT bad \<noteq> None \<and>
      Unmarshal testRuntime (VSlice [VMap goodEntry, VMap badEntry, VMap goodEntry])
        (Pointer (DSlice CarT [DStruct car])) =
        (itemError testRuntime CarT bad, Pointer (DSlice CarT [DStruct car]))) \<and>
   (\<exists>m \<in> set [goodEntry, badEntry, goodEntry]. itemError testRuntime CarT (VMap m) \<noteq> None) \<and>
   (\<exists>pre bad post. [goodEntry, badEntry, goodEntry] = pre @ bad # post \<and>
      (\<forall>m \<in> set pre. itemError testRuntime CarT (VMap m) = None) \<and>
      itemError testRuntime CarT (VMap bad) \<noteq> None \<and>
      Unmarshal testRuntime (VSliceOfMaps [goodEntry, badEntry, goodEntry])
        (Pointer (DSlice CarT [DStruct car])) =
        (itemError testRuntime CarT (VMap bad), Pointer (DSlice CarT [DStruct car])))"
proof -
  have bad: "itemError testRuntime CarT (VMap badEntry) \<noteq> None"
    by (simp add: eval)
  then have h1: "\<exists>x \<in> set [VMap goodEntry, VMap badEntry, VMap goodEntry].
      itemError testRuntime CarT x \<noteq> None"
    and h2: "\<exists>m \<in> set [goodEntry, badEntry, goodEntry]. itemError testRuntime CarT (VMap m) \<noteq> None"
    by simp_all
  note inst = C2_first_failing_item_aborts
    [of "[VMap goodEntry, VMap badEntry, VMap goodEntry]" testRuntime CarT "[DStruct car]"
        "[goodEntry, badEntry, goodEntry]"]
  from inst h1 h2 show ?thesis by blast
qed

text \<open>
  Counterexample to C3 as stated (the flag would be false): the mapping with
  \<open>Year = "A"\<close> yields one Field Error, for \<open>Year\<close>, whose \<open>IsFieldAffected()\<close> is true,
  while \<open>Year\<close> keeps its value 0.
\<close>

theorem C3_counterexample:
  "map is_FieldError
     (Errors (fst (Unmarshal testRuntime (VMap badEntry) (Pointer (DStruct car))))) = [True] \<and>
   map IsFieldAffected
     (Errors (fst (Unmarshal testRuntime (VMap badEntry) (Pointer (DStruct car))))) = [True] \<and>
   map Field
     (Errors (fst (Unmarshal testRuntime (VMap badEntry) (Pointer (DStruct car))))) = [''Year''] \<and>
   FieldByName (car) ''Year'' = Some \<lparr>name = ''Year'', exported = True, ftyp = Plain KInt, val = FInt 0\<rparr> \<and>
   snd (Unmarshal testRuntime (VMap badEntry) (Pointer (DStruct car))) =
     Pointer (DStruct
       [\<lparr>name = ''Brand'', exported = True, ftyp = Plain KString, val = FString ''Toyota''\<rparr>,
        \<lparr>name = ''Year'', exported = True, ftyp = Plain KInt, val = FInt 0\<rparr>,
        \<lparr>name = ''Used'', exported = True, ftyp = Plain KBool, val = FBool False\<rparr>,
        \<lparr>name = ''Price'', exported = True, ftyp = Plain KFloat64, val = FFloat64 0\<rparr>,
        \<lparr>name = ''Document'', exported = True, ftyp = Plain KString,
          val = FString []\<rparr>])"
  by (simp add: eval)

text \<open>
  Claim C3, as amended.  Every Field Error of an assignment pass has \<open>IsFieldAffected()\<close>
  true, and the field it names is left as it was: the flag marks the field hit by the
  failure, not a change of its value.
\<close>

theorem C3_fieldAffected_is_true:
  assumes "distinct (map fst m)"
  shows "\<exists>e fs'. Unmarshal rt (VMap m) (Pointer (DStruct fs)) = (e, Pointer (DStruct fs')) \<and>
     (\<forall>x \<in> set (Errors e). is_FieldError x \<longrightarrow>
        IsFieldAffected x \<and> FieldByName fs' (Field x) = FieldByName fs (Field x))"
proof -
  define e where "e = fst (assignFields rt m fs None)"
  define fs' where "fs' = snd (assignFields rt m fs None)"
  have res: "Unmarshal rt (VMap m) (Pointer (DStruct fs)) = (e, Pointer (DStruct fs'))"
    by (simp add: Unmarshal_VMap MapToStruct_struct e_def fs'_def)
  have "IsFieldAffected x \<and> FieldByName fs' (Field x) = FieldByName fs (Field x)"
    if x: "x \<in> set (Errors e)" and fe: "is_FieldError x" for x
  proof (cases "\<exists>kv \<in> set m. stopsAt rt fs kv")
    case True
    from stop_split [OF this] obtain pre k v post where
      m: "m = pre @ (k, v) # post" and pre: "\<forall>x \<in> set pre. \<not> stopsAt rt fs x"
      and stop: "stopsAt rt fs (k, v)"
      by blast
    have "e = Some (stopError rt fs (k, v))"
      unfolding e_def m using assignFields_abort [OF pre stop] by simp
    with x have "x = stopError rt fs (k, v)"
      using Errors_stopError [OF stop] by simp
    with fe stopError_not_FieldError [OF stop] show ?thesis by simp
  next
    case False
    then have na: "\<forall>kv \<in> set m. \<not> stopsAt rt fs kv" by blast
    have "Errors e = fieldErrors rt fs m"
      unfolding e_def using assignFields_errors [OF na, of None] by simp
    with x obtain k v cause where kv: "(k, v) \<in> set m"
      and fc: "fieldConversion rt fs k v = Some (Failed cause)"
      and xeq: "x = FieldError k cause True"
      by (auto dest: fieldErrors_mem)
    from kv assms have mk: "map_of m k = Some v" by simp
    have "FieldByName fs' k = FieldByName fs k"
      unfolding fs'_def using assignFields_fields [OF na assms, of None k]
      by (simp add: mk fc)
    then show ?thesis by (simp add: xeq IsFieldAffected_def Field_def)
  qed
  with res show ?thesis by blast
qed

text \<open>Witness for the amended C3.\<close>

theorem C3_witness:
  "distinct (map fst badEntry) \<and>
   (\<exists>e fs'. Unmarshal testRuntime (VMap badEntry) (Pointer (DStruct car)) =
        (e, Pointer (DStruct fs')) \<and>
      Errors e = [FieldError ''Year'' (NumError ''Atoi'' ''A'' ErrSyntax) True] \<and>
      (\<forall>x \<in> set (Errors e). is_FieldError x \<longrightarrow>
         IsFieldAffected x \<and> FieldByName fs' (Field x) = FieldByName car (Field x)))"
proof -
  have h: "distinct (map fst badEntry)" by (simp add: eval)
  have ev: "Errors (fst (Unmarshal testRuntime (VMap badEntry) (Pointer (DStruct car)))) =
      [FieldError ''Year'' (NumError ''Atoi'' ''A'' ErrSyntax) True]"
    by (simp add: eval)
  from C3_fieldAffected_is_true [OF h, of testRuntime car] obtain e fs' where
    r: "Unmarshal testRuntime (VMap badEntry) (Pointer (DStruct car)) = (e, Pointer (DStruct fs'))"
    and a: "\<forall>x \<in> set (Errors e). is_FieldError x \<longrightarrow>
         IsFieldAffected x \<and> FieldByName fs' (Field x) = FieldByName car (Field x)"
    by blast
  from ev r have "Errors e = [FieldError ''Year'' (NumError ''Atoi'' ''A'' ErrSyntax) True]"
    by simp
  with h r a show ?thesis by blast
qed

text \<open>
  Claim C4.  \<open>ConvertBool\<close> returns a boolean exactly when the input is that native
  boolean; on every other input it fails with a conversion error, in particular on the
  text \<open>"true"\<close> and on the integer 1.
\<close>

theorem C4_ConvertBool_strict:
  "(ConvertBool v = Inr b) = (v = VBool b) \<and>
   ((\<exists>b'. v = VBool b') \<or> ConvertBool v = Inl (CannotConvertBool v)) \<and>
   ConvertBool (VString ''true'') = Inl (CannotConvertBool (VString ''true'')) \<and>
   ConvertBool (VInt 1) = Inl (CannotConvertBool (VInt 1))"
  by (cases v) (auto simp: ConvertBool_def)

text \<open>
  Claim C6.  On raw bytes \<open>Unmarshal\<close> first decodes a single mapping and assigns it; if
  that decoding fails it decodes a list of mappings and recurses on that list (which
  gives what the list of mappings itself would give); if both fail it returns the error
  of the second decoding.
\<close>

theorem C6_bytes_decoding_order:
  "(json_map rt b = Inr raw \<longrightarrow> Unmarshal rt (VBytes b) r = MapToStruct rt raw r) \<and>
   (json_map rt b = Inl e1 \<and> json_maps rt b = Inr rawSlice \<longrightarrow>
      Unmarshal rt (VBytes b) r = Unmarshal rt (VSlice (map VMap rawSlice)) r \<and>
      Unmarshal rt (VBytes b) r = Unmarshal rt (VSliceOfMaps rawSlice) r) \<and>
   (json_map rt b = Inl e1 \<and> json_maps rt b = Inl e2 \<longrightarrow>
      Unmarshal rt (VBytes b) r = (Some e2, r))"
  by (simp add: Unmarshal_VBytes UnmarshalBytes.simps Unmarshal_VSlice Unmarshal_VSliceOfMaps
      UnmarshalSliceOfMaps_UnmarshalSlice)

text \<open>Witness for C6: an object, a list of objects, and a number.\<close>

theorem C6_witness:
  "json_map testRuntime ''{}'' = Inr [] \<and>
   Unmarshal testRuntime (VBytes ''{}'') (Pointer (DStruct car)) =
     MapToStruct testRuntime [] (Pointer (DStruct car)) \<and>
   json_map testRuntime ''[{},{}]'' =
     Inl (JSONError ''json: cannot unmarshal array into Go value of type map[string]interface {}'') \<and>
   json_maps testRuntime ''[{},{}]'' = Inr [[], []] \<and>
   Unmarshal testRuntime (VBytes ''[{},{}]'') (Pointer (DSlice CarT [])) =
     Unmarshal testRuntime (VSlice (map VMap [[], []])) (Pointer (DSlice CarT [])) \<and>
   json_map testRuntime ''7'' =
     Inl (JSONError ''json: cannot unmarshal number into Go value of type map[string]interface {}'') \<and>
   json_maps testRuntime ''7'' =
     Inl (JSONError ''json: cannot unmarshal number into Go value of type []map[string]interface {}'') \<and>
   Unmarshal testRuntime (VBytes ''7'') (Pointer (DStruct car)) =
     (Some (JSONError ''json: cannot unmarshal number into Go value of type []map[string]interface {}''),
      Pointer (DStruct car))"
proof -
  have a: "json_map testRuntime ''{}'' = Inr []"
    and b: "json_map testRuntime ''[{},{}]'' =
      Inl (JSONError ''json: cannot unmarshal array into Go value of type map[string]interface {}'')"
    and c: "json_maps testRuntime ''[{},{}]'' = Inr [[], []]"
    and d: "json_map testRuntime ''7'' =
      Inl (JSONError ''json: cannot unmarshal number into Go value of type map[string]interface {}'')"
    and e: "json_maps testRuntime ''7'' =
      Inl (JSONError ''json: cannot unmarshal number into Go value of type []map[string]interface {}'')"
    by (simp_all add: testRuntime_def)
  from C6_bytes_decoding_order [where rt = testRuntime and b = "''{}''" and raw = "[]"
      and r = "Pointer (DStruct car)"] a
  have 1: "Unmarshal testRuntime (VBytes ''{}'') (Pointer (DStruct car)) =
     MapToStruct testRuntime [] (Pointer (DStruct car))" by blast
  from C6_bytes_decoding_order [where rt = testRuntime and b = "''[{},{}]''"
      and rawSlice = "[[], []]" and r = "Pointer (DSlice CarT [])"] b c
  have 2: "Unmarshal testRuntime (VBytes ''[{},{}]'') (Pointer (DSlice CarT [])) =
     Unmarshal testRuntime (VSlice (map VMap [[], []])) (Pointer (DSlice CarT []))" by blast
  from C6_bytes_decoding_order [where rt = testRuntime and b = "''7''"
      and r = "Pointer (DStruct car)"] d e
  have 3: "Unmarshal testRuntime (VBytes ''7'') (Pointer (DStruct car)) =
     (Some (JSONError ''json: cannot unmarshal number into Go value of type []map[string]interface {}''),
      Pointer (DStruct car))" by blast
  from a b c d e 1 2 3 show ?thesis by blast
qed

text \<open>
  Claim C7.  For a mapping with distinct keys: a field whose value changed is named by an
  entry, can be set, and holds that entry's converted value; a field named by no entry
  keeps its value; every error returned comes from an entry of the mapping whose key names
  a field that can be set (the Field Error of its failed conversion, or the error that
  ended the pass there), so that keys naming no such field and fields named by no key
  raise none; and the entries whose key names no field, or a field that cannot be set, can
  be removed from the mapping without changing the error or any field.
\<close>

theorem C7_only_matching_fields_written:
  assumes "distinct (map fst m)"
  shows "\<exists>e fs'. Unmarshal rt (VMap m) (Pointer (DStruct fs)) = (e, Pointer (DStruct fs')) \<and>
     (\<forall>k. FieldByName fs' k \<noteq> FieldByName fs k \<longrightarrow>
        (\<exists>v f c. (k, v) \<in> set m \<and> FieldByName fs k = Some f \<and> CanSet f \<and>
           convertByKind rt (Kind (ftyp f)) v = Converted c \<and>
           FieldByName fs' k = Some (f\<lparr>val := c\<rparr>))) \<and>
     (\<forall>k. k \<notin> fst ` set m \<longrightarrow> FieldByName fs' k = FieldByName fs k) \<and>
     (\<forall>x \<in> set (Errors e). \<exists>k v f. (k, v) \<in> set m \<and> FieldByName fs k = Some f \<and> CanSet f \<and>
        (case convertByKind rt (Kind (ftyp f)) v of
           Failed cause \<Rightarrow> x = FieldError k cause True
         | Unsupported ty \<Rightarrow> x = UnsupportedFieldType ty
         | Converted c \<Rightarrow> \<not> assignable (ftyp f) \<and> x = Panic (typeName (ftyp f)))) \<and>
     Unmarshal rt (VMap (filter (\<lambda>(k, v). matchesWritable fs k) m)) (Pointer (DStruct fs)) =
       (e, Pointer (DStruct fs'))"
proof -
  define e where "e = fst (assignFields rt m fs None)"
  define fs' where "fs' = snd (assignFields rt m fs None)"
  define pre where "pre = takeWhile (\<lambda>kv. \<not> stopsAt rt fs kv) m"
  have res: "Unmarshal rt (VMap m) (Pointer (DStruct fs)) = (e, Pointer (DStruct fs'))"
    by (simp add: Unmarshal_VMap MapToStruct_struct e_def fs'_def)
  have na: "\<forall>kv \<in> set pre. \<not> stopsAt rt fs kv"
    by (auto simp: pre_def dest: set_takeWhileD)
  have dist: "distinct (map fst pre)"
    unfolding pre_def using assms by (rule distinct_takeWhile_keys)
  have fs': "fs' = snd (assignFields rt pre fs None)"
    unfolding fs'_def pre_def by (rule assignFields_takeWhile)
  have written: "\<exists>v f c. (k, v) \<in> set m \<and> FieldByName fs k = Some f \<and> CanSet f \<and>
           convertByKind rt (Kind (ftyp f)) v = Converted c \<and>
           FieldByName fs' k = Some (f\<lparr>val := c\<rparr>)"
    if ne: "FieldByName fs' k \<noteq> FieldByName fs k" for k
  proof -
    note eq = assignFields_fields [OF na dist, of None k, folded fs']
    from ne eq obtain v where mk: "map_of pre k = Some v"
      by (cases "map_of pre k") auto
    from ne eq mk obtain c where fc: "fieldConversion rt fs k v = Some (Converted c)"
      by (auto split: option.splits conversion.splits)
    from fieldConversion_SomeD [OF fc] obtain f where
      f: "FieldByName fs k = Some f" "CanSet f" "convertByKind rt (Kind (ftyp f)) v = Converted c"
      by blast
    from mk have "(k, v) \<in> set m"
      by (auto simp: pre_def dest!: map_of_SomeD set_takeWhileD)
    moreover from eq mk fc f have "FieldByName fs' k = Some (f\<lparr>val := c\<rparr>)" by simp
    ultimately show ?thesis using f by blast
  qed
  have absent: "FieldByName fs' k = FieldByName fs k" if "k \<notin> fst ` set m" for k
    unfolding fs'_def using that by (rule assignFields_absent)
  have caused: "\<exists>k v f. (k, v) \<in> set m \<and> FieldByName fs k = Some f \<and> CanSet f \<and>
        (case convertByKind rt (Kind (ftyp f)) v of
           Failed cause \<Rightarrow> x = FieldError k cause True
         | Unsupported ty \<Rightarrow> x = UnsupportedFieldType ty
         | Converted c \<Rightarrow> \<not> assignable (ftyp f) \<and> x = Panic (typeName (ftyp f)))"
    if x: "x \<in> set (Errors e)" for x
  proof (cases "\<exists>kv \<in> set m. stopsAt rt fs kv")
    case True
    from stop_split [OF this] obtain p k v post where
      m: "m = p @ (k, v) # post" and p: "\<forall>x \<in> set p. \<not> stopsAt rt fs x"
      and stop: "stopsAt rt fs (k, v)"
      by blast
    have "e = Some (stopError rt fs (k, v))"
      unfolding e_def m using assignFields_abort [OF p stop] by simp
    with x have xeq: "x = stopError rt fs (k, v)"
      using Errors_stopError [OF stop] by simp
    from stopError_cause [OF stop] obtain f where
      f: "FieldByName fs k = Some f" "CanSet f"
      and c: "case convertByKind rt (Kind (ftyp f)) v of
              Unsupported ty \<Rightarrow> stopError rt fs (k, v) = UnsupportedFieldType ty
            | Failed cause \<Rightarrow> False
            | Converted c \<Rightarrow>
                \<not> assignable (ftyp f) \<and> stopError rt fs (k, v) = Panic (typeName (ftyp f))"
      by blast
    from c have "case convertByKind rt (Kind (ftyp f)) v of
           Failed cause \<Rightarrow> x = FieldError k cause True
         | Unsupported ty \<Rightarrow> x = UnsupportedFieldType ty
         | Converted c \<Rightarrow> \<not> assignable (ftyp f) \<and> x = Panic (typeName (ftyp f))"
      unfolding xeq by (cases "convertByKind rt (Kind (ftyp f)) v") simp_all
    moreover have "(k, v) \<in> set m" by (simp add: m)
    ultimately show ?thesis using f by blast
  next
    case False
    then have nm: "\<forall>kv \<in> set m. \<not> stopsAt rt fs kv" by blast
    have "Errors e = fieldErrors rt fs m"
      unfolding e_def using assignFields_errors [OF nm, of None] by simp
    with x obtain k v cause where kv: "(k, v) \<in> set m"
      and fc: "fieldConversion rt fs k v = Some (Failed cause)"
      and xeq: "x = FieldError k cause True"
      by (auto dest: fieldErrors_mem)
    from fieldConversion_SomeD [OF fc] obtain f where
      "FieldByName fs k = Some f" "CanSet f" "convertByKind rt (Kind (ftyp f)) v = Failed cause"
      by blast
    with kv xeq show ?thesis by force
  qed
  have ignored:
    "Unmarshal rt (VMap (filter (\<lambda>(k, v). matchesWritable fs k) m)) (Pointer (DStruct fs)) =
       (e, Pointer (DStruct fs'))"
    by (simp add: Unmarshal_VMap MapToStruct_struct e_def fs'_def assignFields_ignored)
  from res written absent caused ignored show ?thesis by blast
qed

text \<open>Witness for C7: two unknown keys and a key for the unexported field \<open>owner\<close>.\<close>

theorem C7_witness:
  "distinct (map fst additionalData) \<and>
   (\<exists>e fs'. Unmarshal testRuntime (VMap additionalData) (Pointer (DStruct listing)) =
        (e, Pointer (DStruct fs')) \<and>
     (\<forall>k. FieldByName fs' k \<noteq> FieldByName listing k \<longrightarrow>
        (\<exists>v f c. (k, v) \<in> set additionalData \<and> FieldByName listing k = Some f \<and> CanSet f \<and>
           convertByKind testRuntime (Kind (ftyp f)) v = Converted c \<and>
           FieldByName fs' k = Some (f\<lparr>val := c\<rparr>))) \<and>
     (\<forall>k. k \<notin> fst ` set additionalData \<longrightarrow> FieldByName fs' k = FieldByName listing k) \<and>
     (\<forall>x \<in> set (Errors e). \<exists>k v f. (k, v) \<in> set additionalData \<and>
        FieldByName listing k = Some f \<and> CanSet f \<and>
        (case convertByKind testRuntime (Kind (ftyp f)) v of
           Failed cause \<Rightarrow> x = FieldError k cause True
         | Unsupported ty \<Rightarrow> x = UnsupportedFieldType ty
         | Converted c \<Rightarrow> \<not> assignable (ftyp f) \<and> x = Panic (typeName (ftyp f)))) \<and>
     Unmarshal testRuntime (VMap (filter (\<lambda>(k, v). matchesWritable listing k) additionalData))
        (Pointer (DStruct listing)) = (e, Pointer (DStruct fs'))) \<and>
   filter (\<lambda>(k, v). matchesWritable listing k) additionalData = [(''Brand'', VString ''Toyota'')] \<and>
   Unmarshal testRuntime (VMap additionalData) (Pointer (DStruct listing)) =
     (None, Pointer (DStruct (SetField listing ''Brand'' (FString ''Toyota''))))"
proof -
  have h: "distinct (map fst additionalData)" by (simp add: eval)
  have f: "filter (\<lambda>(k, v). matchesWritable listing k) additionalData =
      [(''Brand'', VString ''Toyota'')]"
    by (simp add: eval)
  have r: "Unmarshal testRuntime (VMap additionalData) (Pointer (DStruct listing)) =
     (None, Pointer (DStruct (SetField listing ''Brand'' (FString ''Toyota''))))"
    by (simp add: eval)
  from C7_only_matching_fields_written [OF h, of testRuntime listing] h f r
  show ?thesis by blast
qed



text \<open>
  Claim C9.  When \<open>UnmarshalSlice\<close> or \<open>UnmarshalSliceOfMaps\<close> returns \<open>nil\<close>, the
  destination holds its former elements followed by the converted items, in the order
  of the input.
\<close>

theorem C9_appends_to_existing:
  "(fst (UnmarshalSlice rt items (Pointer (DSlice t old))) = None \<longrightarrow>
      snd (UnmarshalSlice rt items (Pointer (DSlice t old))) =
        Pointer (DSlice t (old @ map (itemValue rt t) items))) \<and>
   (fst (UnmarshalSliceOfMaps rt maps (Pointer (DSlice t old))) = None \<longrightarrow>
      snd (UnmarshalSliceOfMaps rt maps (Pointer (DSlice t old))) =
        Pointer (DSlice t (old @ map (\<lambda>m. itemValue rt t (VMap m)) maps)))"
  using UnmarshalSlice_success [of rt items t old] UnmarshalSlice_success [of rt "map VMap maps" t old]
  by (simp add: UnmarshalSliceOfMaps_UnmarshalSlice comp_def)

text \<open>Witness for C9: two items appended to a slice that holds one \<open>Car\<close>.\<close>

theorem C9_witness:
  "fst (UnmarshalSlice testRuntime [VMap goodEntry, VMap []] (Pointer (DSlice CarT [DStruct car]))) = None \<and>
   snd (UnmarshalSlice testRuntime [VMap goodEntry, VMap []] (Pointer (DSlice CarT [DStruct car]))) =
     Pointer (DSlice CarT ([DStruct car] @ map (itemValue testRuntime CarT) [VMap goodEntry, VMap []])) \<and>
   fst (UnmarshalSliceOfMaps testRuntime [goodEntry, []] (Pointer (DSlice CarT [DStruct car]))) = None \<and>
   snd (UnmarshalSliceOfMaps testRuntime [goodEntry, []] (Pointer (DSlice CarT [DStruct car]))) =
     Pointer (DSlice CarT ([DStruct car] @ map (\<lambda>m. itemValue testRuntime CarT (VMap m)) [goodEntry, []]))"
proof -
  have h1: "fst (UnmarshalSlice testRuntime [VMap goodEntry, VMap []]
      (Pointer (DSlice CarT [DStruct car]))) = None"
    by (simp add: eval)
  have h2: "fst (UnmarshalSliceOfMaps testRuntime [goodEntry, []]
      (Pointer (DSlice CarT [DStruct car]))) = None"
    by (simp add: eval)
  note inst = C9_appends_to_existing
    [of testRuntime "[VMap goodEntry, VMap []]" CarT "[DStruct car]" "[goodEntry, []]"]
  from inst h1 h2 show ?thesis by blast
qed

text \<open>
  Claim C10.  When the pass reaches an entry for a field of unsupported kind (no earlier
  entry having ended it), the error returned is that structural error alone, whatever
  Field Errors the earlier entries had accumulated, and the fields are as the earlier
  entries left them: every earlier entry whose value converted has its field written.
\<close>

theorem C10_abort_drops_errors_keeps_writes:
  assumes "m = pre @ (k, v) # post" and "\<forall>x \<in> set pre. \<not> unsupportedAt rt fs x"
    and "\<forall>x \<in> set pre. \<not> panicsAt rt fs x"
    and "distinct (map fst pre)"
    and "FieldByName fs k = Some f" and "CanSet f" and "Kind (ftyp f) = KOther ty"
  shows "\<exists>e' fs'.
     Unmarshal rt (VMap pre) (Pointer (DStruct fs)) = (e', Pointer (DStruct fs')) \<and>
     Errors e' = fieldErrors rt fs pre \<and>
     Unmarshal rt (VMap m) (Pointer (DStruct fs)) =
       (Some (UnsupportedFieldType ty), Pointer (DStruct fs')) \<and>
     (\<forall>(k', v') \<in> set pre. \<forall>f' c. FieldByName fs k' = Some f' \<and> CanSet f' \<and>
        convertByKind rt (Kind (ftyp f')) v' = Converted c \<longrightarrow>
        FieldByName fs' k' = Some (f'\<lparr>val := c\<rparr>))"
proof -
  define e' where "e' = fst (assignFields rt pre fs None)"
  define fs' where "fs' = snd (assignFields rt pre fs None)"
  from assms(2,3) have ns: "\<forall>x \<in> set pre. \<not> stopsAt rt fs x"
    by (simp add: stopsAt_def)
  from assms(5-7) have fc: "fieldConversion rt fs k v = Some (Unsupported ty)"
    by (simp add: fieldConversion_def)
  then have stop: "stopsAt rt fs (k, v)"
    and se: "stopError rt fs (k, v) = UnsupportedFieldType ty"
    by (simp_all add: stopsAt_def)
  have r0: "Unmarshal rt (VMap pre) (Pointer (DStruct fs)) = (e', Pointer (DStruct fs'))"
    by (simp add: Unmarshal_VMap MapToStruct_struct e'_def fs'_def)
  have errs: "Errors e' = fieldErrors rt fs pre"
    unfolding e'_def using assignFields_errors [OF ns, of None] by simp
  have r1: "Unmarshal rt (VMap m) (Pointer (DStruct fs)) =
      (Some (UnsupportedFieldType ty), Pointer (DStruct fs'))"
    using assignFields_abort [OF ns stop, of post None, unfolded se]
    by (simp add: Unmarshal_VMap MapToStruct_struct assms(1) fs'_def)
  have kept: "FieldByName fs' k' = Some (f'\<lparr>val := c\<rparr>)"
    if "(k', v') \<in> set pre" and "FieldByName fs k' = Some f'" and "CanSet f'"
      and "convertByKind rt (Kind (ftyp f')) v' = Converted c" for k' v' f' c
  proof -
    from that(1) assms(4) have mk: "map_of pre k' = Some v'" by simp
    from that(2-4) have "fieldConversion rt fs k' v' = Some (Converted c)"
      by (simp add: fieldConversion_def)
    with assignFields_fields [OF ns assms(4), of None k'] mk that(2)
    show ?thesis by (simp add: fs'_def)
  qed
  from r0 errs r1 kept show ?thesis by blast
qed

text \<open>Witness for C10: before \<open>Seller\<close>, \<open>Brand\<close> is written and \<open>Year\<close> fails.\<close>

theorem C10_witness:
  "sellerData = [(''Brand'', VString ''Toyota''), (''Year'', VString ''A'')] @
      (''Seller'', VNil) # [(''owner'', VString ''nobody'')] \<and>
   list_all (\<lambda>x. \<not> unsupportedAt testRuntime listing x)
      [(''Brand'', VString ''Toyota''), (''Year'', VString ''A'')] \<and>
   list_all (\<lambda>x. \<not> panicsAt testRuntime listing x)
      [(''Brand'', VString ''Toyota''), (''Year'', VString ''A'')] \<and>
   distinct (map fst [(''Brand'', VString ''Toyota''), (''Year'', VString ''A'')]) \<and>
   FieldByName listing ''Seller'' =
     Some \<lparr>name = ''Seller'', exported = True, ftyp = Plain (KOther ''transform.Person''),
            val = FOther ''transform.Person''\<rparr> \<and>
   CanSet \<lparr>name = ''Seller'', exported = True, ftyp = Plain (KOther ''transform.Person''),
            val = FOther ''transform.Person''\<rparr> \<and>
   Kind (ftyp \<lparr>name = ''Seller'', exported = True, ftyp = Plain (KOther ''transform.Person''),
            val = FOther ''transform.Person''\<rparr>) = KOther ''transform.Person'' \<and>
   fieldErrors testRuntime listing [(''Brand'', VString ''Toyota''), (''Year'', VString ''A'')] =
     [FieldError ''Year'' (NumError ''Atoi'' ''A'' ErrSyntax) True] \<and>
   (\<exists>e' fs'.
     Unmarshal testRuntime (VMap [(''Brand'', VString ''Toyota''), (''Year'', VString ''A'')])
       (Pointer (DStruct listing)) = (e', Pointer (DStruct fs')) \<and>
     Errors e' =
       fieldErrors testRuntime listing [(''Brand'', VString ''Toyota''), (''Year'', VString ''A'')] \<and>
     Unmarshal testRuntime (VMap sellerData) (Pointer (DStruct listing)) =
       (Some (UnsupportedFieldType ''transform.Person''), Pointer (DStruct fs')) \<and>
     (\<forall>(k', v') \<in> set [(''Brand'', VString ''Toyota''), (''Year'', VString ''A'')].
        \<forall>f' c. FieldByName listing k' = Some f' \<and> CanSet f' \<and>
        convertByKind testRuntime (Kind (ftyp f')) v' = Converted c \<longrightarrow>
        FieldByName fs' k' = Some (f'\<lparr>val := c\<rparr>)))"
proof -
  let ?pre = "[(''Brand'', VString ''Toyota''), (''Year'', VString ''A'')]"
  let ?f = "\<lparr>name = ''Seller'', exported = True, ftyp = Plain (KOther ''transform.Person''),
            val = FOther ''transform.Person''\<rparr>"
  have h1: "sellerData = ?pre @ (''Seller'', VNil) # [(''owner'', VString ''nobody'')]"
    by (simp add: eval)
  have h2: "\<forall>x \<in> set ?pre. \<not> unsupportedAt testRuntime listing x"
    by (simp add: eval)
  have "\<forall>f \<in> set listing. assignable (ftyp f)" by (simp add: listing_def)
  then have h2p: "\<forall>x \<in> set ?pre. \<not> panicsAt testRuntime listing x"
    by (simp only: assignable_no_panic) simp
  have h3: "distinct (map fst ?pre)" by simp
  have h4: "FieldByName listing ''Seller'' = Some ?f" by (simp add: listing_def)
  have h5: "CanSet ?f" by (simp add: CanSet_def)
  have h6: "Kind (ftyp ?f) = KOther ''transform.Person''" by simp
  have fe: "fieldErrors testRuntime listing ?pre =
     [FieldError ''Year'' (NumError ''Atoi'' ''A'' ErrSyntax) True]"
    by (simp add: eval)
  from h2 have h2': "list_all (\<lambda>x. \<not> unsupportedAt testRuntime listing x) ?pre"
    by (simp add: list_all_iff)
  from h2p have h2p': "list_all (\<lambda>x. \<not> panicsAt testRuntime listing x) ?pre"
    by (simp add: list_all_iff)
  from C10_abort_drops_errors_keeps_writes [OF h1 h2 h2p h3 h4 h5 h6]
    h1 h2' h2p' h3 h4 h5 h6 fe
  show ?thesis by blast
qed

end
